theory Spec2Isabelle
  imports Complex_Main "HOL-Library.Log_Nat"
begin

section \<open>The process supervisor of deepstream.io-service\<close>

text \<open>
  The supervisor is the function \<open>start\<close> of the daemon module: it spawns a child
  process, and relaunches it when it exits, driven by the callbacks that it registers
  (the child's \<open>exit\<close> event, two kinds of \<open>setTimeout\<close> callbacks, three signal
  handlers and the handler of the process's own \<open>exit\<close> event).

  The closure variables of \<open>start\<close> are the fields of a record. The event loop is a
  step function: one event of the environment (a child exit, a timer that fires, a
  signal) runs the callback the source registered for it, to completion, on the
  state. What the callbacks do to the outside world (spawning, arming a timer,
  logging, killing, exiting) is appended to a trace, in program order. The two
  \<open>data\<close> listeners, which copy the child's output to the streams of the
  supervisor, touch none of the variables and are left out, as are the environment and
  the options that \<open>spawn\<close> is given.

  Numbers: the counters \<open>attempts\<close> and \<open>starts\<close> are naturals and the readings of
  \<open>Date.now()\<close> are integers (milliseconds). \<open>wait\<close>, the delays of the timers and
  the options \<open>growPercentage\<close> and \<open>restartDelay\<close>, which enter the products that
  the source computes, are binary64 numbers, and the products are rounded as
  JavaScript rounds them. The limits \<open>maxRetries\<close> and \<open>maxRestarts\<close> are only
  compared with the counters; they are finite numbers, taken as rationals.
\<close>

subsection \<open>Numbers\<close>

text \<open>
  A JavaScript number: a finite value, an infinity or \<open>NaN\<close>. \<open>Fin q\<close> is a number
  of JavaScript when \<open>q\<close> is on the binary64 grid, as what \<open>round64\<close> returns is.
  The two zeros of binary64 are one here: they compare equal, and nothing in the
  source tells them apart.
\<close>

datatype num64 = Fin rat | PInf | NInf | NaN

text \<open>
  The format: 53 bits of precision, the least exponent of a bit, and the exponent
  from which a magnitude is too large for a finite number.
\<close>

definition prec :: int where
  "prec = 53"

definition emin :: int where
  "emin = - 1074"

definition emax :: int where
  "emax = 1024"

text \<open>The exponent of a positive rational: \<open>2 powi expo q \<le> q < 2 powi (expo q + 1)\<close>.\<close>

definition expo :: "rat \<Rightarrow> int" where
  "expo q = (if 1 \<le> q then bitlen \<lfloor>q\<rfloor> - 1 else - bitlen (\<lceil>1 / q\<rceil> - 1))"

text \<open>Rounding to the nearest integer, a tie to the even one.\<close>

definition round_even :: "rat \<Rightarrow> int" where
  "round_even x =
     (let f = \<lfloor>x\<rfloor>; r = x - of_int f
      in if r < 1 / 2 then f else if 1 / 2 < r then f + 1 else if even f then f else f + 1)"

text \<open>
  Rounding a rational to binary64: to the nearest multiple of the unit in the last
  place of its binade (of \<open>2 powi emin\<close> for a subnormal), a tie to the even one, and
  to an infinity when the rounded magnitude reaches \<open>2 powi emax\<close>.
\<close>

definition round64 :: "rat \<Rightarrow> num64" where
  "round64 q =
     (if q = 0 then Fin 0
      else (let u = max (expo \<bar>q\<bar> - (prec - 1)) emin;
                r = of_int (round_even (q / 2 powi u)) * 2 powi u
            in if 2 powi emax \<le> r then PInf
               else if r \<le> - (2 powi emax) then NInf
               else Fin r))"

text \<open>The operator \<open>*\<close> of JavaScript on numbers.\<close>

fun mul64 :: "num64 \<Rightarrow> num64 \<Rightarrow> num64" where
  "mul64 (Fin a) (Fin b) = round64 (a * b)"
| "mul64 (Fin a) PInf = (if a = 0 then NaN else if 0 < a then PInf else NInf)"
| "mul64 (Fin a) NInf = (if a = 0 then NaN else if 0 < a then NInf else PInf)"
| "mul64 PInf (Fin b) = (if b = 0 then NaN else if 0 < b then PInf else NInf)"
| "mul64 NInf (Fin b) = (if b = 0 then NaN else if 0 < b then NInf else PInf)"
| "mul64 PInf PInf = PInf"
| "mul64 PInf NInf = NInf"
| "mul64 NInf PInf = NInf"
| "mul64 NInf NInf = PInf"
| "mul64 NaN y = NaN"
| "mul64 x NaN = NaN"

text \<open>What \<open>wait\<close> is after \<open>k\<close> multiplications by \<open>g\<close>, from its initial value 1.\<close>

primrec grow :: "num64 \<Rightarrow> nat \<Rightarrow> num64" where
  "grow g 0 = Fin 1"
| "grow g (Suc k) = mul64 (grow g k) g"

subsection \<open>Strings and bytes\<close>

text \<open>
  A \<open>data\<close> event of a stream of the child carries a chunk of bytes. The listener
  turns it into a string with \<open>data.toString()\<close>, which decodes UTF-8, and writes the
  string, which the stream encodes as UTF-8 again. Bytes are numbers below 256 and a
  string is the list of its code points (a JavaScript string holds a code point from
  \<open>0x10000\<close> on as two surrogates, which the encoder joins again).

  The decoder replaces what is not well-formed by U+FFFD (65533): a byte that cannot
  begin a sequence, and a sequence that breaks off, at the byte that does not fit or
  at the end of the chunk. The second byte of a sequence is bounded more closely
  after \<open>0xE0\<close>, \<open>0xED\<close>, \<open>0xF0\<close> and \<open>0xF4\<close>, which excludes overlong forms,
  surrogates and code points above \<open>0x10FFFF\<close>.
\<close>

fun utf8_decode :: "nat list \<Rightarrow> nat list" where
  "utf8_decode [] = []"
| "utf8_decode (b # bs) =
     (if b < 128 then b # utf8_decode bs
      else if 194 \<le> b \<and> b < 224 then
        (case bs of
           [] \<Rightarrow> [65533]
         | c # cs \<Rightarrow>
             if 128 \<le> c \<and> c < 192
             then ((b - 192) * 64 + (c - 128)) # utf8_decode cs
             else 65533 # utf8_decode bs)
      else if 224 \<le> b \<and> b < 240 then
        (case bs of
           [] \<Rightarrow> [65533]
         | c # cs \<Rightarrow>
             if (if b = 224 then 160 else 128) \<le> c \<and> c < (if b = 237 then 160 else 192)
             then (case cs of
                     [] \<Rightarrow> [65533]
                   | d # ds \<Rightarrow>
                       if 128 \<le> d \<and> d < 192
                       then ((b - 224) * 4096 + (c - 128) * 64 + (d - 128)) # utf8_decode ds
                       else 65533 # utf8_decode cs)
             else 65533 # utf8_decode bs)
      else if 240 \<le> b \<and> b < 245 then
        (case bs of
           [] \<Rightarrow> [65533]
         | c # cs \<Rightarrow>
             if (if b = 240 then 144 else 128) \<le> c \<and> c < (if b = 244 then 144 else 192)
             then (case cs of
                     [] \<Rightarrow> [65533]
                   | d # ds \<Rightarrow>
                       if 128 \<le> d \<and> d < 192
                       then (case ds of
                               [] \<Rightarrow> [65533]
                             | e # es \<Rightarrow>
                                 if 128 \<le> e \<and> e < 192
                                 then ((b - 240) * 262144 + (c - 128) * 4096 +
                                       (d - 128) * 64 + (e - 128)) # utf8_decode es
                                 else 65533 # utf8_decode ds)
                       else 65533 # utf8_decode cs)
             else 65533 # utf8_decode bs)
      else 65533 # utf8_decode bs)"

declare utf8_decode.simps [simp del]

definition encode_cp :: "nat \<Rightarrow> nat list" where
  "encode_cp c =
     (if c < 128 then [c]
      else if c < 2048 then [192 + c div 64, 128 + c mod 64]
      else if c < 65536 then [224 + c div 4096, 128 + c div 64 mod 64, 128 + c mod 64]
      else [240 + c div 262144, 128 + c div 4096 mod 64, 128 + c div 64 mod 64,
            128 + c mod 64])"

definition utf8_encode :: "nat list \<Rightarrow> nat list" where
  "utf8_encode cs = concat (map encode_cp cs)"


text \<open>The bytes that the listener of a \<open>data\<close> event writes for a chunk.\<close>

definition forwarded :: "nat list \<Rightarrow> nat list" where
  "forwarded chunk = utf8_encode (utf8_decode chunk)"

subsection \<open>Options\<close>

text \<open>
  A JavaScript value of one of the types the options of the module have, and an
  object as a map from property names to values.
\<close>

datatype jsval = JUndefined | JBool bool | JNum num64 | JStr string

type_synonym jsobj = "string \<rightharpoonup> jsval"

text \<open>\<open>Object.assign(target, source)\<close>: every own property of the source is written to the target.\<close>

definition Object_assign :: "jsobj \<Rightarrow> jsobj \<Rightarrow> jsobj" where
  "Object_assign target source = target ++ source"

text \<open>The object literal that \<open>module.exports.start\<close> passes as the target.\<close>

definition defaults :: jsobj where
  "defaults =
     [''name'' \<mapsto> JStr ''deepstream'',
      ''exitOnError'' \<mapsto> JBool False,
      ''growPercentage'' \<mapsto> JNum (Fin (1 / 4)),
      ''maxRetries'' \<mapsto> JNum (Fin 10),
      ''restartDelay'' \<mapsto> JNum (Fin 1)]"

text \<open>
  The options as \<open>start\<close> reads them. The five properties with a default have the
  type of their default. \<open>maxRestarts\<close> has no default and is \<open>undefined\<close>
  (\<open>None\<close>) unless the caller gives it; the comparisons of \<open>attempts\<close> with
  \<open>undefined\<close> are false. \<open>processExec\<close>, the file that \<open>spawn\<close> runs, has no
  default either, and \<open>spawn\<close> takes nothing but a string.
\<close>

record options =
  name :: string
  exitOnError :: bool
  growPercentage :: num64
  maxRetries :: rat
  restartDelay :: num64
  maxRestarts :: "rat option"
  processExec :: string

text \<open>
  Reading the typed options off an object. An object without a \<open>processExec\<close>,
  with a property of another type than these, or with a limit that is not finite, is
  outside the typed model (\<open>None\<close>).
\<close>

definition options_of :: "jsobj \<Rightarrow> options option" where
  "options_of obj =
     (case (obj ''name'', obj ''exitOnError'', obj ''growPercentage'',
            obj ''maxRetries'', obj ''restartDelay'') of
        (Some (JStr n), Some (JBool b), Some (JNum g), Some (JNum (Fin r)), Some (JNum d)) \<Rightarrow>
          (case (case obj ''maxRestarts'' of
                   None \<Rightarrow> Some None
                 | Some JUndefined \<Rightarrow> Some None
                 | Some (JNum (Fin m)) \<Rightarrow> Some (Some m)
                 | Some _ \<Rightarrow> None,
                 case obj ''processExec'' of
                   Some (JStr e) \<Rightarrow> Some e
                 | _ \<Rightarrow> None) of
             (Some m, Some e) \<Rightarrow>
               Some \<lparr>name = n, exitOnError = b, growPercentage = g, maxRetries = r,
                      restartDelay = d, maxRestarts = m, processExec = e\<rparr>
           | _ \<Rightarrow> None)
      | _ \<Rightarrow> None)"

subsection \<open>State and effects\<close>

text \<open>The two callbacks that the source passes to \<open>setTimeout\<close>.\<close>

datatype timer = Relaunch_cb | Window_cb

text \<open>
  How the process was ended: \<open>process.exit()\<close>, \<open>process.exit(code)\<close>, an exception
  that nothing catches, an event loop with nothing left to wait for, or a signal that
  the process has no handler for. Node ends the process with status 0 for
  \<open>process.exit()\<close> when \<open>process.exitCode\<close> was never set (the source never sets
  it) and for an empty loop, and with status 1 for an uncaught exception; for a
  process that a signal killed, a shell reports 128 plus the number of the signal
  (137 for \<open>SIGKILL\<close>).
\<close>

datatype exit_call =
  Exit_default | Exit_code int | Uncaught_exception | Loop_drained | Signalled

fun exit_status :: "exit_call \<Rightarrow> int" where
  "exit_status Exit_default = 0"
| "exit_status (Exit_code c) = c"
| "exit_status Uncaught_exception = 1"
| "exit_status Loop_drained = 0"
| "exit_status Signalled = 137"

text \<open>
  What the supervisor does to the outside world. \<open>Process_exit\<close> is the moment at
  which the process emits its \<open>exit\<close> event, with the reason; \<open>Type_error\<close> and
  \<open>Unhandled_error\<close> are the two exceptions that the source can raise: a property of
  \<open>null\<close>, and an \<open>error\<close> event of the child, for which it has no listener.
\<close>

datatype action =
    Spawn string "string list"
  | Set_timeout timer num64
  | Console_error string
  | Remove_all_listeners
  | Kill
  | Process_exit exit_call
  | Type_error
  | Unhandled_error
  | Stdout_write "nat list"
  | Stderr_write "nat list"

text \<open>
  The child handle: \<open>pid\<close> is the property that \<open>delete child.pid\<close> removes,
  \<open>exit_listener\<close> tells whether the handler of \<open>child.on('exit', ...)\<close> is still
  attached, and \<open>running\<close> whether there is a process that has not yet emitted its
  \<open>exit\<close> event.
\<close>

record child_proc =
  pid :: "nat option"
  exit_listener :: bool
  running :: bool

text \<open>
  \<open>startTime\<close>, \<open>attempts\<close>, \<open>starts\<close>, \<open>child\<close> and \<open>wait\<close> are the variables of
  \<open>start\<close>. \<open>timers\<close> holds the pending \<open>setTimeout\<close> callbacks with their delays,
  \<open>exited\<close> is set once the process has ended, and \<open>argv\<close> is \<open>process.argv\<close>.
\<close>

record sup_state =
  startTime :: "int option"
  attempts :: nat
  starts :: nat
  child :: "child_proc option"
  wait :: num64
  timers :: "(timer \<times> num64) list"
  trace :: "action list"
  exited :: "exit_call option"
  argv :: "string list"

definition emit :: "action list \<Rightarrow> sup_state \<Rightarrow> sup_state" where
  "emit as s = s\<lparr>trace := trace s @ as\<rparr>"

text \<open>The constant \<open>max\<close> of the source: the length of the window, in seconds.\<close>

definition max_secs :: int where
  "max_secs = 6"

subsection \<open>Messages\<close>

fun digits_of_nat :: "nat \<Rightarrow> string" where
  "digits_of_nat n =
     (if n < 10 then [''0123456789'' ! n]
      else digits_of_nat (n div 10) @ [''0123456789'' ! (n mod 10)])"

declare digits_of_nat.simps [simp del]

definition show_int :: "int \<Rightarrow> string" where
  "show_int i = (if i < 0 then ''-'' @ digits_of_nat (nat (- i)) else digits_of_nat (nat i))"

text \<open>The exit code in a template literal: \<open>null\<close> when a signal ended the child.\<close>

definition show_code :: "int option \<Rightarrow> string" where
  "show_code code = (case code of None \<Rightarrow> ''null'' | Some c \<Rightarrow> show_int c)"

definition storm_message :: string where
  "storm_message =
     ''Too many restarts within the last '' @ show_int max_secs @
     '' seconds. Please check the script.''"

definition cap_message :: "options \<Rightarrow> string" where
  "cap_message opts =
     name opts @
     '' will not be restarted because the maximum number of total restarts has been exceeded.''"

definition error_message :: "options \<Rightarrow> int option \<Rightarrow> string" where
  "error_message opts code = name opts @ '' exited with error code '' @ show_code code"

subsection \<open>The handlers of the process\<close>

text \<open>
  The handler of the process's \<open>exit\<close> event. With \<open>child\<close> still \<open>null\<close> the call
  \<open>child.removeAllListeners\<close> throws.
\<close>

definition on_process_exit :: "sup_state \<Rightarrow> sup_state" where
  "on_process_exit s =
     (case child s of
        None \<Rightarrow> emit [Type_error] s
      | Some c \<Rightarrow>
          emit [Remove_all_listeners, Kill] (s\<lparr>child := Some (c\<lparr>exit_listener := False\<rparr>)\<rparr>))"

text \<open>
  \<open>process.exit\<close> emits the \<open>exit\<close> event, runs its handler and ends the process;
  it does not return to its caller.
\<close>

definition process_exit :: "exit_call \<Rightarrow> sup_state \<Rightarrow> sup_state" where
  "process_exit c s = (on_process_exit (emit [Process_exit c] s))\<lparr>exited := Some c\<rparr>"

text \<open>A \<open>TypeError\<close> for a property of \<open>null\<close>, which no handler catches.\<close>

definition uncaught :: "sup_state \<Rightarrow> sup_state" where
  "uncaught s = process_exit Uncaught_exception (emit [Type_error] s)"

text \<open>
  An \<open>error\<close> event of the child (the process could not be spawned, or could not be
  killed). The source attaches no listener for it, so the emitter throws and nothing
  catches the exception.
\<close>

definition unhandled_error :: "sup_state \<Rightarrow> sup_state" where
  "unhandled_error s = process_exit Uncaught_exception (emit [Unhandled_error] s)"

text \<open>The handlers of \<open>SIGTERM\<close>, \<open>SIGHUP\<close> and \<open>SIGINT\<close> have the same body.\<close>

datatype signal = SIGTERM | SIGHUP | SIGINT

definition on_signal :: "signal \<Rightarrow> sup_state \<Rightarrow> sup_state" where
  "on_signal sg s =
     (case child s of
        None \<Rightarrow> uncaught s
      | Some c \<Rightarrow>
          emit [Remove_all_listeners, Kill] (s\<lparr>child := Some (c\<lparr>exit_listener := False\<rparr>)\<rparr>))"

subsection \<open>launch and monitor\<close>

text \<open>
  \<open>launch\<close>, with the reading of \<open>Date.now()\<close> and the pid of the child that \<open>spawn\<close>
  returns as parameters. A child without a pid is one that could not be spawned:
  there is no process, and it will emit \<open>error\<close>, not \<open>exit\<close>.
\<close>

definition launch :: "options \<Rightarrow> int \<Rightarrow> nat option \<Rightarrow> sup_state \<Rightarrow> sup_state" where
  "launch opts now p s =
     (let s1 = (if startTime s = None
                then emit [Set_timeout Window_cb (Fin (of_int (max_secs * 1000 + 1)))]
                       (s\<lparr>startTime := Some now,
                          timers := timers s @
                            [(Window_cb, Fin (of_int (max_secs * 1000 + 1)))]\<rparr>)
                else s);
          s2 = s1\<lparr>starts := starts s1 + 1\<rparr>
      in emit [Spawn (processExec opts) (''start'' # drop 2 (argv s2))]
           (s2\<lparr>child := Some \<lparr>pid = p, exit_listener = True, running = (p \<noteq> None)\<rparr>\<rparr>))"

text \<open>The callback of the window timer.\<close>

definition window_cb :: "sup_state \<Rightarrow> sup_state" where
  "window_cb s = s\<lparr>startTime := None, starts := 0\<rparr>"

text \<open>The callback that \<open>monitor\<close> passes to \<open>setTimeout\<close>.\<close>

definition relaunch_cb :: "options \<Rightarrow> int \<Rightarrow> nat option \<Rightarrow> sup_state \<Rightarrow> sup_state" where
  "relaunch_cb opts now p s =
     (let s1 = s\<lparr>wait := mul64 (wait s) (growPercentage opts), attempts := attempts s + 1\<rparr>
      in if (case maxRestarts opts of
               None \<Rightarrow> False
             | Some m \<Rightarrow> of_nat (attempts s1) > m \<and> m \<ge> 0)
         then process_exit Exit_default (emit [Console_error (cap_message opts)] s1)
         else launch opts now p s1)"

text \<open>\<open>!child.pid\<close>: the property is missing, or it is 0.\<close>

definition no_pid :: "child_proc \<Rightarrow> bool" where
  "no_pid c = (case pid c of None \<Rightarrow> True | Some p \<Rightarrow> p = 0)"

text \<open>
  \<open>monitor\<close>, with the reading of \<open>Date.now()\<close> as a parameter. The two nested
  tests of the source are one conjunction here; in the subtraction \<open>null\<close> counts
  as 0.
\<close>

definition monitor :: "options \<Rightarrow> int \<Rightarrow> sup_state \<Rightarrow> sup_state" where
  "monitor opts now s =
     (case child s of
        None \<Rightarrow> uncaught s
      | Some c \<Rightarrow>
          if no_pid c then
            if of_nat (starts s) \<ge> maxRetries opts \<and>
               now - max_secs * 1000 - (case startTime s of None \<Rightarrow> 0 | Some t \<Rightarrow> t) > 0
            then process_exit (Exit_code 1) (emit [Console_error storm_message] s)
            else emit [Set_timeout Relaunch_cb (wait s)]
                   (s\<lparr>timers := timers s @ [(Relaunch_cb, wait s)]\<rparr>)
          else s\<lparr>attempts := 0, wait := mul64 (restartDelay opts) (Fin 1000)\<rparr>)"

text \<open>The handler of the child's \<open>exit\<close> event.\<close>

definition on_child_exit :: "options \<Rightarrow> int option \<Rightarrow> int \<Rightarrow> sup_state \<Rightarrow> sup_state" where
  "on_child_exit opts code now s =
     (if code \<noteq> Some 0 \<and> exitOnError opts
      then process_exit Exit_default (emit [Console_error (error_message opts code)] s)
      else (case child s of
              None \<Rightarrow> uncaught s
            | Some c \<Rightarrow> monitor opts now (s\<lparr>child := Some (c\<lparr>pid := None\<rparr>)\<rparr>)))"

subsection \<open>The event loop\<close>

text \<open>
  An event of the environment: the child emits \<open>exit\<close> with a code (\<open>None\<close> is
  \<open>null\<close>), a pending timer fires, or a signal arrives. An event carries what the
  callback reads from the environment: \<open>Date.now()\<close>, and the pid of the child that
  \<open>spawn\<close> returns.

  The other events are the ones for which the source registers a listener, or fails
  to: a chunk on the standard output or the standard error of the child of the
  \<open>n\<close>-th launch, and an \<open>error\<close> event of the child. The last three are the ways
  in which the process ends without a call from the source: the loop has nothing left
  to wait for, other code of the same process calls \<open>process.exit\<close> (\<open>None\<close> for no
  argument), or a signal arrives that the process has no handler for (any but the
  three of the source; \<open>SIGKILL\<close> cannot have one).
\<close>

datatype event =
    Child_exit "int option" int
  | Relaunch_timer int "nat option"
  | Window_timer
  | Signal signal
  | Child_stdout nat "nat list"
  | Child_stderr nat "nat list"
  | Child_error
  | Loop_empty
  | Other_exit "int option"
  | Fatal_signal

fun launches :: "action list \<Rightarrow> nat" where
  "launches [] = 0"
| "launches (Spawn e as # xs) = Suc (launches xs)"
| "launches (x # xs) = launches xs"

text \<open>Removing the first pending timer of a kind; \<open>None\<close> when none is pending.\<close>

fun take_timer ::
  "timer \<Rightarrow> (timer \<times> num64) list \<Rightarrow> (timer \<times> num64) list option" where
  "take_timer k [] = None"
| "take_timer k (t # ts) =
     (if fst t = k then Some ts
      else (case take_timer k ts of None \<Rightarrow> None | Some ts' \<Rightarrow> Some (t # ts')))"

text \<open>
  One turn of the event loop. Nothing runs once the process has ended; a timer fires
  only while it is pending, and a child emits \<open>exit\<close> once, to the handler that is
  attached then. The clock readings and the order of the events are up to the
  environment: a statement about every list of events covers every schedule.

  The \<open>data\<close> listeners are attached at each launch and never removed, so a chunk of
  any child launched so far is written. The loop is empty when no timer is pending
  and no child runs. Whenever the process ends by \<open>process.exit\<close>, by an uncaught
  exception or by an empty loop, Node emits \<open>exit\<close> and the handler of the source
  runs; a fatal signal ends the process at once.
\<close>

definition step :: "options \<Rightarrow> event \<Rightarrow> sup_state \<Rightarrow> sup_state" where
  "step opts e s =
     (if exited s \<noteq> None then s
      else (case e of
              Child_exit code now \<Rightarrow>
                (case child s of
                   None \<Rightarrow> s
                 | Some c \<Rightarrow>
                     if running c then
                       (let s1 = s\<lparr>child := Some (c\<lparr>running := False\<rparr>)\<rparr>
                        in if exit_listener c then on_child_exit opts code now s1 else s1)
                     else s)
            | Relaunch_timer now p \<Rightarrow>
                (case take_timer Relaunch_cb (timers s) of
                   None \<Rightarrow> s
                 | Some ts \<Rightarrow> relaunch_cb opts now p (s\<lparr>timers := ts\<rparr>))
            | Window_timer \<Rightarrow>
                (case take_timer Window_cb (timers s) of
                   None \<Rightarrow> s
                 | Some ts \<Rightarrow> window_cb (s\<lparr>timers := ts\<rparr>))
            | Signal sg \<Rightarrow> on_signal sg s
            | Child_stdout n chunk \<Rightarrow>
                if 0 < n \<and> n \<le> launches (trace s)
                then emit [Stdout_write (forwarded chunk)] s else s
            | Child_stderr n chunk \<Rightarrow>
                if 0 < n \<and> n \<le> launches (trace s)
                then emit [Stderr_write (forwarded chunk)] s else s
            | Child_error \<Rightarrow>
                (case child s of None \<Rightarrow> s | Some c \<Rightarrow> unhandled_error s)
            | Loop_empty \<Rightarrow>
                if timers s = [] \<and> (case child s of None \<Rightarrow> True | Some c \<Rightarrow> \<not> running c)
                then process_exit Loop_drained s else s
            | Other_exit code \<Rightarrow>
                process_exit (case code of None \<Rightarrow> Exit_default | Some c \<Rightarrow> Exit_code c) s
            | Fatal_signal \<Rightarrow> s\<lparr>exited := Some Signalled\<rparr>))"

definition run :: "options \<Rightarrow> event list \<Rightarrow> sup_state \<Rightarrow> sup_state" where
  "run opts evs s = fold (step opts) evs s"

text \<open>The variables of \<open>start\<close> as it initialises them.\<close>

definition init :: "string list \<Rightarrow> sup_state" where
  "init av =
     \<lparr>startTime = None, attempts = 0, starts = 0, child = None, wait = Fin 1,
      timers = [], trace = [], exited = None, argv = av\<rparr>"

text \<open>\<open>start\<close> registers the handlers and launches the first child.\<close>

definition start :: "options \<Rightarrow> string list \<Rightarrow> int \<Rightarrow> nat option \<Rightarrow> sup_state" where
  "start opts av now p = launch opts now p (init av)"

text \<open>\<open>module.exports.start\<close>: \<open>daemonOptions || {}\<close> merged over the defaults.\<close>

definition module_start ::
  "jsobj option \<Rightarrow> string list \<Rightarrow> int \<Rightarrow> nat option \<Rightarrow> sup_state option" where
  "module_start daemonOptions av now p =
     (let opts = (case daemonOptions of None \<Rightarrow> Map.empty | Some d \<Rightarrow> d)
      in map_option (\<lambda>conf. start conf av now p) (options_of (Object_assign defaults opts)))"

subsection \<open>Observations on a trace\<close>

fun relaunch_delays :: "action list \<Rightarrow> num64 list" where
  "relaunch_delays [] = []"
| "relaunch_delays (Set_timeout Relaunch_cb d # xs) = d # relaunch_delays xs"
| "relaunch_delays (x # xs) = relaunch_delays xs"





text \<open>The number of pending timers of a kind.\<close>

definition pending :: "timer \<Rightarrow> (timer \<times> num64) list \<Rightarrow> nat" where
  "pending k ts = length (filter (\<lambda>t. fst t = k) ts)"

text \<open>
  Exactly when \<open>startTime\<close> is set, one window timer is pending; otherwise none is.
\<close>

definition window_inv :: "sup_state \<Rightarrow> bool" where
  "window_inv s = (pending Window_cb (timers s) = (if startTime s = None then 0 else 1))"


text \<open>
  Under a lifetime cap \<open>N\<close>: at most \<open>N + 1\<close> launches so far, never more launches than
  attempts plus the first one, and at most \<open>N\<close> attempts while the process runs.
\<close>

definition cap_inv :: "rat \<Rightarrow> sup_state \<Rightarrow> bool" where
  "cap_inv N s =
     (of_nat (launches (trace s)) \<le> N + 1 \<and>
      launches (trace s) \<le> attempts s + 1 \<and>
      (if exited s = None then of_nat (attempts s) \<le> N else True))"

text \<open>
  The delays of the relaunch timers armed so far are the values that \<open>wait\<close> takes
  under repeated multiplication by \<open>g\<close>, \<open>wait\<close> is the next of them, and a relaunch
  timer is pending only while no child runs.
\<close>

definition delay_inv :: "num64 \<Rightarrow> sup_state \<Rightarrow> bool" where
  "delay_inv g s =
     (wait s = grow g (attempts s) \<and>
      relaunch_delays (trace s) =
        map (grow g) [0..<attempts s + pending Relaunch_cb (timers s)] \<and>
      (case child s of
         None \<Rightarrow> pending Relaunch_cb (timers s) = 0
       | Some c \<Rightarrow>
           if running c then pending Relaunch_cb (timers s) = 0
           else pending Relaunch_cb (timers s) \<le> 1))"

subsection \<open>A concrete configuration\<close>

text \<open>
  The defaults of the module with an executable, the command line of the supervisor
  and the initial state that they give when the clock reads 0 and the first child has
  pid 100.
\<close>

definition base_options :: options where
  "base_options =
     \<lparr>name = ''deepstream'', exitOnError = False, growPercentage = Fin (1 / 4),
      maxRetries = 10, restartDelay = Fin 1, maxRestarts = None,
      processExec = ''/usr/bin/deepstream''\<rparr>"

definition base_argv :: "string list" where
  "base_argv = [''node'', ''daemon.js'', ''--verbose'']"

definition base_start :: "options \<Rightarrow> sup_state" where
  "base_start opts = start opts base_argv 0 (Some 100)"

text \<open>
  An object that a caller passes to \<open>module.exports.start\<close>, and the options that it
  gives over the defaults.
\<close>

definition caller_options :: jsobj where
  "caller_options =
     [''name'' \<mapsto> JStr ''ds'', ''exitOnError'' \<mapsto> JBool True,
      ''maxRetries'' \<mapsto> JNum (Fin 3), ''restartDelay'' \<mapsto> JNum (Fin 5),
      ''maxRestarts'' \<mapsto> JNum (Fin 7), ''processExec'' \<mapsto> JStr ''/usr/bin/ds'']"

definition merged_options :: options where
  "merged_options =
     \<lparr>name = ''ds'', exitOnError = True, growPercentage = Fin (1 / 4), maxRetries = 3,
      restartDelay = Fin 5, maxRestarts = Some 7, processExec = ''/usr/bin/ds''\<rparr>"

text \<open>
  The default configuration in a crash loop: the child of every launch exits with
  code 1 and is launched again, three milliseconds apart.
\<close>

primrec crash_loop :: "nat \<Rightarrow> event list" where
  "crash_loop 0 = []"
| "crash_loop (Suc n) =
     crash_loop n @
       [Child_exit (Some 1) (3 * int n + 1), Relaunch_timer (3 * int n + 2) (Some (101 + n))]"

lemmas sup_defs =
  run_def step_def start_def init_def launch_def emit_def max_secs_def on_child_exit_def
  monitor_def no_pid_def relaunch_cb_def window_cb_def on_signal_def process_exit_def
  on_process_exit_def uncaught_def unhandled_error_def base_options_def base_argv_def
  base_start_def

section \<open>Rounding\<close>

lemma powi2_less_imp: "(2::rat) powi a < 2 powi b \<Longrightarrow> a < b"
  using power_int_increasing [of b a "2::rat"] by (cases "a < b") auto

lemma powi2_le_imp: "(2::rat) powi a \<le> 2 powi b \<Longrightarrow> a \<le> b"
  using power_int_strict_increasing [of b a "2::rat"] by (cases "a \<le> b") auto

lemma expo_lower: "0 < q \<Longrightarrow> 2 powi (expo q) \<le> q"
proof (cases "1 \<le> q")
  case True
  assume "0 < q"
  let ?n = "\<lfloor>q\<rfloor>"
  have n: "0 < ?n" using True by simp
  have b: "2 ^ nat (bitlen ?n - 1) \<le> ?n"
    using bitlen_bounds [OF n] by simp
  have k: "0 \<le> bitlen ?n - 1"
    using n by (simp add: bitlen_alt_def)
  have "(2::rat) powi (bitlen ?n - 1) = 2 ^ nat (bitlen ?n - 1)"
    using k by (simp only: power_int_nonneg_exp)
  also have "\<dots> = of_int (2 ^ nat (bitlen ?n - 1))"
    by simp
  also have "\<dots> \<le> of_int ?n"
    using b by (simp only: of_int_le_iff)
  also have "\<dots> \<le> q"
    by simp
  finally show ?thesis
    using True by (simp add: expo_def)
next
  case False
  assume q: "0 < q"
  let ?c = "\<lceil>1 / q\<rceil>"
  have x: "1 < 1 / q" using False q by simp
  have c: "0 < ?c - 1" using x by simp
  let ?k = "bitlen (?c - 1)"
  have b: "?c - 1 < 2 ^ nat ?k"
    using bitlen_bounds [OF c] by simp
  then have "?c \<le> 2 ^ nat ?k" by simp
  then have o: "(of_int ?c :: rat) \<le> of_int (2 ^ nat ?k)"
    by (simp only: of_int_le_iff)
  have "1 / q \<le> of_int ?c"
    by (rule le_of_int_ceiling)
  also note o
  also have "(of_int (2 ^ nat ?k) :: rat) = 2 ^ nat ?k"
    by simp
  finally have "1 / q \<le> 2 ^ nat ?k" .
  then have "1 / (2 ^ nat ?k) \<le> q"
    using q by (simp add: field_simps)
  moreover have "(2::rat) powi (- ?k) = 1 / (2 ^ nat ?k)"
    using bitlen_nonneg [of "?c - 1"]
    by (simp only: power_int_minus_divide power_int_nonneg_exp)
  ultimately show ?thesis
    using False by (simp add: expo_def)
qed

lemma round_even_int: "round_even (of_int m) = m"
  by (simp add: round_even_def)


lemma round64_exact:
  assumes q: "q = of_int m * 2 powi e" and m: "\<bar>m\<bar> < 2 ^ 53"
    and e: "emin \<le> e" "e \<le> emax - prec"
  shows "round64 q = Fin q"
proof (cases "q = 0")
  case True
  then show ?thesis by (simp add: round64_def)
next
  case False
  define u where "u = max (expo \<bar>q\<bar> - (prec - 1)) emin"
  have a: "\<bar>q\<bar> = of_int \<bar>m\<bar> * 2 powi e"
    by (simp add: q abs_mult)
  have "(of_int \<bar>m\<bar> :: rat) < of_int (2 ^ 53)"
    using m by (simp only: of_int_less_iff)
  then have "(of_int \<bar>m\<bar> :: rat) < 2 powi prec"
    by (simp add: prec_def)
  then have "\<bar>q\<bar> < 2 powi prec * 2 powi e"
    unfolding a by (simp add: mult_strict_right_mono)
  also have "\<dots> = 2 powi (prec + e)"
    by (simp add: power_int_add)
  finally have lt: "\<bar>q\<bar> < 2 powi (prec + e)" .
  then have "2 powi (expo \<bar>q\<bar>) < (2::rat) powi (prec + e)"
    using expo_lower [of "\<bar>q\<bar>"] False by simp
  then have "expo \<bar>q\<bar> < prec + e"
    by (rule powi2_less_imp)
  then have ue: "u \<le> e"
    using e by (simp add: u_def)
  have "q / 2 powi u = of_int m * 2 powi (e - u)"
    by (simp add: q power_int_diff)
  also have "\<dots> = of_int m * 2 ^ nat (e - u)"
    using ue by (simp only: power_int_nonneg_exp diff_ge_0_iff_ge)
  also have "\<dots> = of_int (m * 2 ^ nat (e - u))"
    by simp
  finally have "round_even (q / 2 powi u) = m * 2 ^ nat (e - u)"
    by (simp only: round_even_int)
  then have "of_int (round_even (q / 2 powi u)) * 2 powi u =
      (of_int m :: rat) * (2 ^ nat (e - u) * 2 powi u)"
    by simp
  also have "(2::rat) ^ nat (e - u) * 2 powi u = 2 powi (e - u) * 2 powi u"
    using ue by (simp only: power_int_nonneg_exp diff_ge_0_iff_ge)
  also have "\<dots> = 2 powi e"
    by (simp add: power_int_add [symmetric])
  finally have r: "of_int (round_even (q / 2 powi u)) * 2 powi u = q"
    by (simp add: q)
  have "(2::rat) powi (prec + e) \<le> 2 powi emax"
    using e by (intro power_int_increasing) simp_all
  then have "\<bar>q\<bar> < 2 powi emax"
    using lt by simp
  then have "\<not> 2 powi emax \<le> q" "\<not> q \<le> - (2 powi emax)"
    by (simp_all only: abs_less_iff not_le) simp_all
  then show ?thesis
    using False r unfolding round64_def Let_def u_def [symmetric] by simp
qed

lemma round_even_half: "\<bar>x\<bar> \<le> 1 / 2 \<Longrightarrow> round_even x = 0"
proof (cases "0 \<le> x")
  case True
  assume h: "\<bar>x\<bar> \<le> 1 / 2"
  then have "\<lfloor>x\<rfloor> = 0" using True by (intro floor_unique) simp_all
  then show ?thesis using h True by (simp add: round_even_def)
next
  case False
  assume h: "\<bar>x\<bar> \<le> 1 / 2"
  then have f: "\<lfloor>x\<rfloor> = - 1" using False by (intro floor_unique) simp_all
  have "x - of_int \<lfloor>x\<rfloor> \<ge> 1 / 2" using h False by (simp add: f abs_le_iff)
  then show ?thesis using f by (auto simp add: round_even_def Let_def)
qed

lemma round64_tiny:
  assumes "\<bar>q\<bar> \<le> 2 powi (emin - 1)"
  shows "round64 q = Fin 0"
proof (cases "q = 0")
  case True
  then show ?thesis by (simp add: round64_def)
next
  case False
  have "2 powi (expo \<bar>q\<bar>) \<le> (2::rat) powi (emin - 1)"
    using expo_lower [of "\<bar>q\<bar>"] False assms by simp
  then have "expo \<bar>q\<bar> \<le> emin - 1"
    by (rule powi2_le_imp)
  then have u: "max (expo \<bar>q\<bar> - (prec - 1)) emin = emin"
    by (simp add: prec_def)
  have "\<bar>q / 2 powi emin\<bar> = \<bar>q\<bar> / 2 powi emin"
    by (simp add: abs_divide)
  also have "\<dots> \<le> 2 powi (emin - 1) / 2 powi emin"
    using assms by (intro divide_right_mono) simp_all
  also have "\<dots> = 2 powi (emin - 1 - emin)"
    by (simp add: power_int_diff)
  also have "\<dots> = 1 / 2"
    by (simp add: power_int_minus)
  finally have "round_even (q / 2 powi emin) = 0"
    by (rule round_even_half)
  moreover have "\<not> (2::rat) powi emax \<le> 0"
    by (simp add: not_le)
  ultimately show ?thesis
    using False unfolding round64_def Let_def u by simp
qed

lemma round64_int: "\<bar>m\<bar> < 2 ^ 53 \<Longrightarrow> round64 (of_int m) = Fin (of_int m)"
  using round64_exact [of "of_int m" m 0] by (simp add: emin_def emax_def prec_def)

lemma round64_pow2:
  assumes "emin \<le> e" "e \<le> emax - prec"
  shows "round64 (2 powi e) = Fin (2 powi e)"
  using round64_exact [of "2 powi e" 1 e] assms by simp

lemma round64_small:
  "round64 2 = Fin 2" "round64 4 = Fin 4" "round64 1000 = Fin 1000"
  "round64 (1 / 4) = Fin (1 / 4)" "round64 (1 / 16) = Fin (1 / 16)"
  using round64_int [of 2] round64_int [of 4] round64_int [of 1000]
    round64_pow2 [of "- 2"] round64_pow2 [of "- 4"]
  by (simp_all add: emin_def emax_def prec_def)

section \<open>Basic facts\<close>

lemma launches_append: "launches (xs @ ys) = launches xs + launches ys"
  by (induction xs rule: launches.induct) simp_all

lemma relaunch_delays_append:
  "relaunch_delays (xs @ ys) = relaunch_delays xs @ relaunch_delays ys"
  by (induction xs rule: relaunch_delays.induct) simp_all

lemma run_Nil: "run opts [] s = s"
  by (simp add: run_def)

lemma run_Cons: "run opts (e # evs) s = run opts evs (step opts e s)"
  by (simp add: run_def)

lemma run_snoc: "run opts (evs @ [e]) s = step opts e (run opts evs s)"
  by (simp add: run_def)

lemma step_exited: "exited s \<noteq> None \<Longrightarrow> step opts e s = s"
  by (simp add: step_def)

lemma run_exited: "exited s \<noteq> None \<Longrightarrow> run opts evs s = s"
  by (induction evs) (simp_all add: run_Nil run_Cons step_exited)

lemma on_process_exit_fields:
  "startTime (on_process_exit s) = startTime s"
  "attempts (on_process_exit s) = attempts s"
  "starts (on_process_exit s) = starts s"
  "wait (on_process_exit s) = wait s"
  "timers (on_process_exit s) = timers s"
  "exited (on_process_exit s) = exited s"
  "argv (on_process_exit s) = argv s"
  by (simp_all add: on_process_exit_def emit_def split: option.splits)

lemma process_exit_fields:
  "startTime (process_exit x s) = startTime s"
  "attempts (process_exit x s) = attempts s"
  "starts (process_exit x s) = starts s"
  "wait (process_exit x s) = wait s"
  "timers (process_exit x s) = timers s"
  "exited (process_exit x s) = Some x"
  "argv (process_exit x s) = argv s"
  by (simp_all add: process_exit_def on_process_exit_fields emit_def)

lemma process_exit_child:
  "child s = Some c \<Longrightarrow>
   process_exit x s =
     s\<lparr>child := Some (c\<lparr>exit_listener := False\<rparr>),
       trace := trace s @ [Process_exit x, Remove_all_listeners, Kill],
       exited := Some x\<rparr>"
  by (simp add: process_exit_def on_process_exit_def emit_def)

lemma uncaught_fields:
  "startTime (uncaught s) = startTime s"
  "attempts (uncaught s) = attempts s"
  "starts (uncaught s) = starts s"
  "wait (uncaught s) = wait s"
  "timers (uncaught s) = timers s"
  "exited (uncaught s) = Some Uncaught_exception"
  by (simp_all add: uncaught_def process_exit_fields emit_def)

section \<open>The stability branch of monitor\<close>

lemma monitor_no_pid:
  "child s = Some c \<Longrightarrow> no_pid c \<Longrightarrow>
   attempts (monitor opts now s) = attempts s \<and> wait (monitor opts now s) = wait s"
  by (simp add: monitor_def process_exit_fields emit_def)

lemma on_child_exit_keeps:
  "attempts (on_child_exit opts code now s) = attempts s \<and>
   wait (on_child_exit opts code now s) = wait s"
  by (cases "child s")
    (simp_all add: on_child_exit_def process_exit_fields uncaught_fields emit_def
       monitor_no_pid no_pid_def)

lemma step_child_exit_keeps:
  "attempts (step opts (Child_exit code now) s) = attempts s \<and>
   wait (step opts (Child_exit code now) s) = wait s"
  by (simp add: step_def on_child_exit_keeps Let_def split: option.splits)

text \<open>
  C9. The handler of the child's \<open>exit\<close> event deletes \<open>child.pid\<close> before it calls
  \<open>monitor\<close>, so \<open>monitor\<close> finds no pid there and takes its first branch. The other
  branch, which sets \<open>attempts\<close> to 0 and \<open>wait\<close> to \<open>restartDelay * 1000\<close>, is taken
  only for a child that has a pid. Hence no child exit changes \<open>attempts\<close> or
  \<open>wait\<close>, whether the handler is run on its own or through the event loop.
\<close>

theorem child_exit_never_resets:
  "(\<forall>c. child s = Some c \<and> \<not> (code \<noteq> Some 0 \<and> exitOnError opts) \<longrightarrow>
      on_child_exit opts code now s =
        monitor opts now (s\<lparr>child := Some (c\<lparr>pid := None\<rparr>)\<rparr>) \<and>
      no_pid (c\<lparr>pid := None\<rparr>)) \<and>
   (\<forall>c. child s = Some c \<and> \<not> no_pid c \<longrightarrow>
      monitor opts now s =
        s\<lparr>attempts := 0, wait := mul64 (restartDelay opts) (Fin 1000)\<rparr>) \<and>
   attempts (on_child_exit opts code now s) = attempts s \<and>
   wait (on_child_exit opts code now s) = wait s \<and>
   attempts (step opts (Child_exit code now) s) = attempts s \<and>
   wait (step opts (Child_exit code now) s) = wait s"
  using on_child_exit_keeps [of opts code now s] step_child_exit_keeps [of opts code now s]
  by (auto simp add: on_child_exit_def no_pid_def monitor_def)

theorem child_exit_never_resets_witness:
  "child (base_start base_options) =
     Some \<lparr>pid = Some 100, exit_listener = True, running = True\<rparr> \<and>
   \<not> (Some 1 \<noteq> Some (0::int) \<and> exitOnError base_options) \<and>
   \<not> no_pid \<lparr>pid = Some 100, exit_listener = True, running = True\<rparr> \<and>
   on_child_exit base_options (Some 1) 10 (base_start base_options) =
     monitor base_options 10
       ((base_start base_options)
          \<lparr>child := Some \<lparr>pid = None, exit_listener = True, running = True\<rparr>\<rparr>) \<and>
   monitor base_options 10 (base_start base_options) =
     (base_start base_options)\<lparr>attempts := 0, wait := Fin 1000\<rparr> \<and>
   attempts (step base_options (Child_exit (Some 1) 10) (base_start base_options)) = 0 \<and>
   wait (step base_options (Child_exit (Some 1) 10) (base_start base_options)) = Fin 1"
proof -
  have c: "child (base_start base_options) =
      Some \<lparr>pid = Some 100, exit_listener = True, running = True\<rparr>"
    by (simp add: base_start_def start_def launch_def init_def emit_def)
  have a: "attempts (base_start base_options) = 0" "wait (base_start base_options) = Fin 1"
    by (simp_all add: base_start_def start_def launch_def init_def emit_def)
  have e: "\<not> exitOnError base_options" "restartDelay base_options = Fin 1"
    by (simp_all add: base_options_def)
  show ?thesis
    using child_exit_never_resets [of "base_start base_options" "Some 1" base_options 10]
    by (simp add: c a e no_pid_def round64_small)
qed

section \<open>The window timer\<close>

lemma pending_append: "pending k (xs @ ys) = pending k xs + pending k ys"
  by (simp add: pending_def)

lemma take_timer_pending:
  "take_timer k ts = Some ts' \<Longrightarrow>
   pending k ts = Suc (pending k ts') \<and> (\<forall>k'. k' \<noteq> k \<longrightarrow> pending k' ts' = pending k' ts)"
  by (induction ts arbitrary: ts')
    (auto simp add: pending_def split: if_splits option.splits)

lemma launch_fields:
  "attempts (launch opts now p s) = attempts s"
  "wait (launch opts now p s) = wait s"
  "exited (launch opts now p s) = exited s"
  "argv (launch opts now p s) = argv s"
  "starts (launch opts now p s) = starts s + 1"
  "child (launch opts now p s) =
     Some \<lparr>pid = p, exit_listener = True, running = (p \<noteq> None)\<rparr>"
  by (simp_all add: launch_def emit_def Let_def)

lemma launch_window:
  "startTime (launch opts now p s) = (if startTime s = None then Some now else startTime s)"
  "timers (launch opts now p s) =
     (if startTime s = None then timers s @ [(Window_cb, Fin 6001)] else timers s)"
  "trace (launch opts now p s) =
     trace s @ (if startTime s = None then [Set_timeout Window_cb (Fin 6001)] else []) @
       [Spawn (processExec opts) (''start'' # drop 2 (argv s))]"
  by (simp_all add: launch_def emit_def Let_def max_secs_def)

lemma window_inv_launch: "window_inv s \<Longrightarrow> window_inv (launch opts now p s)"
  by (simp add: window_inv_def launch_window pending_append) (simp add: pending_def)

lemma window_inv_process_exit: "window_inv s \<Longrightarrow> window_inv (process_exit x s)"
  by (simp add: window_inv_def process_exit_fields)

lemma window_inv_uncaught: "window_inv s \<Longrightarrow> window_inv (uncaught s)"
  by (simp add: window_inv_def uncaught_fields)

lemma window_inv_monitor: "window_inv s \<Longrightarrow> window_inv (monitor opts now s)"
  by (cases "child s")
    (simp_all add: monitor_def window_inv_uncaught window_inv_process_exit,
     simp_all add: window_inv_def emit_def pending_append process_exit_fields,
     simp_all add: pending_def)

lemma window_inv_on_child_exit: "window_inv s \<Longrightarrow> window_inv (on_child_exit opts code now s)"
proof -
  assume w: "window_inv s"
  have a: "window_inv (emit as s)" for as
    using w by (simp add: window_inv_def emit_def)
  have b: "window_inv (s\<lparr>child := c\<rparr>)" for c
    using w by (simp add: window_inv_def)
  show ?thesis
    by (cases "child s")
      (simp_all add: on_child_exit_def window_inv_process_exit window_inv_uncaught
         window_inv_monitor a b w)
qed

lemma window_inv_relaunch_cb:
  assumes "window_inv s"
  shows "window_inv (relaunch_cb opts now p s)"
proof -
  let ?s1 = "s\<lparr>wait := mul64 (wait s) (growPercentage opts), attempts := attempts s + 1\<rparr>"
  have a: "window_inv ?s1"
    using assms by (simp add: window_inv_def)
  have b: "window_inv (emit as ?s1)" for as
    using assms by (simp add: window_inv_def emit_def)
  show ?thesis
    unfolding relaunch_cb_def Let_def
    using a b by (simp add: window_inv_process_exit window_inv_launch)
qed

lemma window_inv_on_signal: "window_inv s \<Longrightarrow> window_inv (on_signal sg s)"
  by (cases "child s")
    (simp_all add: on_signal_def window_inv_uncaught, simp add: window_inv_def emit_def)

lemma window_inv_step_env:
  assumes "window_inv s"
  shows "window_inv (step opts (Child_stdout n chunk) s)"
    "window_inv (step opts (Child_stderr n chunk) s)"
    "window_inv (step opts Child_error s)"
    "window_inv (step opts Loop_empty s)"
    "window_inv (step opts (Other_exit code) s)"
    "window_inv (step opts Fatal_signal s)"
  using assms
  by (auto simp add: step_def window_inv_def emit_def unhandled_error_def process_exit_fields
      split: option.splits if_splits)

lemma window_inv_step: "window_inv s \<Longrightarrow> window_inv (step opts e s)"
proof (cases e)
  case (Child_exit code now)
  assume w: "window_inv s"
  have b: "window_inv (s\<lparr>child := c\<rparr>)" for c
    using w by (simp add: window_inv_def)
  show ?thesis
    using w b by (simp add: step_def Child_exit Let_def window_inv_on_child_exit
        split: option.splits)
next
  case (Relaunch_timer now p)
  assume w: "window_inv s"
  have "window_inv (s\<lparr>timers := ts\<rparr>)" if "take_timer Relaunch_cb (timers s) = Some ts" for ts
    using w take_timer_pending [OF that] by (simp add: window_inv_def)
  then show ?thesis
    using w by (simp add: step_def Relaunch_timer window_inv_relaunch_cb split: option.splits)
next
  case Window_timer
  assume w: "window_inv s"
  have "window_inv (window_cb (s\<lparr>timers := ts\<rparr>))"
    if "take_timer Window_cb (timers s) = Some ts" for ts
    using w take_timer_pending [OF that]
    by (simp add: window_inv_def window_cb_def split: if_splits)
  then show ?thesis
    using w by (simp add: step_def Window_timer split: option.splits)
next
  case (Signal sg)
  assume w: "window_inv s"
  then show ?thesis
    by (simp add: step_def Signal window_inv_on_signal)
qed (simp_all add: window_inv_step_env)

lemma window_inv_run: "window_inv s \<Longrightarrow> window_inv (run opts evs s)"
  by (induction evs arbitrary: s) (simp_all add: run_Nil run_Cons window_inv_step)

lemma window_inv_start: "window_inv (start opts av now p)"
  unfolding start_def
  by (rule window_inv_launch) (simp add: window_inv_def init_def pending_def)

text \<open>
  C6. A launch that finds \<open>startTime\<close> unset sets it to the clock's reading and arms
  one timer of \<open>max * 1000 + 1\<close> = 6001 ms; a launch that finds it set leaves it and
  arms nothing; both add 1 to \<open>starts\<close>. The timer's callback clears \<open>startTime\<close>
  and sets \<open>starts\<close> to 0, whatever their values. In every state that the supervisor
  reaches after \<open>start\<close>, one window timer is pending if \<open>startTime\<close> is set and
  none if it is unset: the timer is armed once per window.
\<close>

theorem window_timer_armed_once:
  "(startTime s = None \<longrightarrow>
      startTime (launch opts now p s) = Some now \<and>
      timers (launch opts now p s) = timers s @ [(Window_cb, Fin (6000 + 1))] \<and>
      trace (launch opts now p s) =
        trace s @ [Set_timeout Window_cb (Fin (6000 + 1)),
                   Spawn (processExec opts) (''start'' # drop 2 (argv s))]) \<and>
   (startTime s \<noteq> None \<longrightarrow>
      startTime (launch opts now p s) = startTime s \<and>
      timers (launch opts now p s) = timers s \<and>
      trace (launch opts now p s) =
        trace s @ [Spawn (processExec opts) (''start'' # drop 2 (argv s))]) \<and>
   starts (launch opts now p s) = starts s + 1 \<and>
   startTime (window_cb s) = None \<and> starts (window_cb s) = 0 \<and>
   (\<forall>ts. exited s = None \<and> take_timer Window_cb (timers s) = Some ts \<longrightarrow>
      step opts Window_timer s = s\<lparr>timers := ts, startTime := None, starts := 0\<rparr>) \<and>
   pending Window_cb (timers (run opts evs (start opts av t0 p0))) =
     (if startTime (run opts evs (start opts av t0 p0)) = None then 0 else 1)"
  using window_inv_run [OF window_inv_start, of opts evs opts av t0 p0]
  by (simp add: launch_window launch_fields window_cb_def step_def window_inv_def)

theorem window_timer_armed_once_witness:
  "startTime (init base_argv) = None \<and>
   startTime (base_start base_options) = Some 0 \<and>
   timers (base_start base_options) = [(Window_cb, Fin 6001)] \<and>
   startTime (launch base_options 7 (Some 101) (base_start base_options)) = Some 0 \<and>
   timers (launch base_options 7 (Some 101) (base_start base_options)) = [(Window_cb, Fin 6001)] \<and>
   starts (launch base_options 7 (Some 101) (base_start base_options)) = 2 \<and>
   exited (base_start base_options) = None \<and>
   take_timer Window_cb (timers (base_start base_options)) = Some [] \<and>
   step base_options Window_timer (base_start base_options) =
     (base_start base_options)\<lparr>timers := [], startTime := None, starts := 0\<rparr>"
proof -
  have a: "startTime (init base_argv) = None" "timers (init base_argv) = []"
    by (simp_all add: init_def)
  have b: "startTime (base_start base_options) = Some 0"
    "timers (base_start base_options) = [(Window_cb, Fin 6001)]"
    "exited (base_start base_options) = None"
    "starts (base_start base_options) = 1"
    using window_timer_armed_once [of "init base_argv" base_options 0 "Some 100"]
    by (simp_all add: a base_start_def start_def launch_fields init_def)
  show ?thesis
    using window_timer_armed_once [of "base_start base_options" base_options 7 "Some 101"]
    by (simp add: a b)
qed

section \<open>Ending the process\<close>
















section \<open>A child that exits with an error\<close>

lemma step_child_exit_error:
  assumes "exitOnError opts" "code \<noteq> Some 0" "exited s = None" "child s = Some c"
    "running c" "exit_listener c"
  shows "step opts (Child_exit code now) s =
     s\<lparr>child := Some (c\<lparr>running := False, exit_listener := False\<rparr>),
       trace := trace s @
         [Console_error (name opts @ '' exited with error code '' @ show_code code),
          Process_exit Exit_default, Remove_all_listeners, Kill],
       exited := Some Exit_default\<rparr>"
  using assms
  by (simp add: step_def Let_def on_child_exit_def process_exit_def on_process_exit_def emit_def
      error_message_def)

text \<open>
  C2, as the code has it. With \<open>exitOnError\<close> set, a child that exits with a code other
  than 0 makes the supervisor log the name and the code, call \<open>process.exit()\<close>, which
  removes the child's listeners and kills it, and end. No relaunch timer is armed and
  no later event changes the state, so nothing is launched after that exit. The call
  has no argument: the status of the process is 0.
\<close>

theorem exit_on_error_is_fatal:
  assumes "exitOnError opts" "code \<noteq> Some 0" "exited s = None" "child s = Some c"
    "running c" "exit_listener c"
  shows "step opts (Child_exit code now) s =
     s\<lparr>child := Some (c\<lparr>running := False, exit_listener := False\<rparr>),
       trace := trace s @
         [Console_error (name opts @ '' exited with error code '' @ show_code code),
          Process_exit Exit_default, Remove_all_listeners, Kill],
       exited := Some Exit_default\<rparr> \<and>
   map_option exit_status (exited (step opts (Child_exit code now) s)) = Some 0 \<and>
   timers (step opts (Child_exit code now) s) = timers s \<and>
   run opts evs (step opts (Child_exit code now) s) = step opts (Child_exit code now) s \<and>
   launches (trace (run opts evs (step opts (Child_exit code now) s))) = launches (trace s)"
proof -
  note e = step_child_exit_error [OF assms, of now]
  have x: "exited (step opts (Child_exit code now) s) \<noteq> None"
    by (simp add: e)
  show ?thesis
    by (simp add: run_exited [OF x]) (simp add: e launches_append)
qed

theorem exit_on_error_is_fatal_witness:
  "exitOnError (base_options\<lparr>exitOnError := True\<rparr>) \<and>
   Some (2::int) \<noteq> Some 0 \<and>
   exited (base_start (base_options\<lparr>exitOnError := True\<rparr>)) = None \<and>
   child (base_start (base_options\<lparr>exitOnError := True\<rparr>)) =
     Some \<lparr>pid = Some 100, exit_listener = True, running = True\<rparr> \<and>
   trace (step (base_options\<lparr>exitOnError := True\<rparr>) (Child_exit (Some 2) 10)
     (base_start (base_options\<lparr>exitOnError := True\<rparr>))) =
     [Set_timeout Window_cb (Fin 6001),
      Spawn ''/usr/bin/deepstream'' [''start'', ''--verbose''],
      Console_error ''deepstream exited with error code 2'',
      Process_exit Exit_default, Remove_all_listeners, Kill] \<and>
   map_option exit_status
     (exited (step (base_options\<lparr>exitOnError := True\<rparr>) (Child_exit (Some 2) 10)
        (base_start (base_options\<lparr>exitOnError := True\<rparr>)))) = Some 0 \<and>
   launches (trace (run (base_options\<lparr>exitOnError := True\<rparr>)
       [Relaunch_timer 11 (Some 101), Child_exit (Some 0) 12]
       (step (base_options\<lparr>exitOnError := True\<rparr>) (Child_exit (Some 2) 10)
          (base_start (base_options\<lparr>exitOnError := True\<rparr>))))) = 1"
proof -
  let ?o = "base_options\<lparr>exitOnError := True\<rparr>"
  let ?c = "\<lparr>pid = Some 100, exit_listener = True, running = True\<rparr>"
  have h1: "exitOnError ?o"
    by (simp add: base_options_def)
  have h2: "Some (2::int) \<noteq> Some 0"
    by simp
  have h3: "exited (base_start ?o) = None"
    by (simp add: base_start_def start_def launch_fields init_def)
  have h4: "child (base_start ?o) = Some ?c"
    by (simp add: base_start_def start_def launch_fields)
  have h5: "running ?c" "exit_listener ?c"
    by simp_all
  note t = exit_on_error_is_fatal [OF h1 h2 h3 h4 h5, where now = 10
      and evs = "[Relaunch_timer 11 (Some 101), Child_exit (Some 0) 12]"]
  have d: "show_code (Some 2) = ''2''"
    by (simp add: show_code_def show_int_def digits_of_nat.simps)
  have n: "name ?o = ''deepstream''"
    by (simp add: base_options_def)
  have tr: "trace (base_start ?o) =
     [Set_timeout Window_cb (Fin 6001),
      Spawn ''/usr/bin/deepstream'' [''start'', ''--verbose'']]"
    by (simp add: sup_defs)
  have t1: "trace (step ?o (Child_exit (Some 2) 10) (base_start ?o)) =
     [Set_timeout Window_cb (Fin 6001),
      Spawn ''/usr/bin/deepstream'' [''start'', ''--verbose''],
      Console_error ''deepstream exited with error code 2'',
      Process_exit Exit_default, Remove_all_listeners, Kill]"
    by (simp add: conjunct1 [OF t] d n tr)
  note t' = conjunct2 [OF t]
  note t'' = conjunct2 [OF conjunct2 [OF conjunct2 [OF t']]]
  have t2: "launches (trace (run ?o [Relaunch_timer 11 (Some 101), Child_exit (Some 0) 12]
       (step ?o (Child_exit (Some 2) 10) (base_start ?o)))) = 1"
    by (simp add: t'' tr)
  show ?thesis
    by (intro conjI h1 h2 h3 h4 t1 t2 conjunct1 [OF t'])
qed

theorem exit_on_error_status_counterexample:
  "map_option exit_status
     (exited (step (base_options\<lparr>exitOnError := True\<rparr>) (Child_exit (Some 2) 10)
        (base_start (base_options\<lparr>exitOnError := True\<rparr>)))) = Some 0"
  by (simp add: sup_defs)

section \<open>Signals\<close>

text \<open>
  C5, as the code has it. The handler of \<open>SIGTERM\<close>, \<open>SIGHUP\<close> or \<open>SIGINT\<close> removes
  the \<open>exit\<close> listeners of the current child and kills it, and does nothing else:
  it does not end the process and it leaves the pending timers alone. The exit of
  that child then arms no timer and adds nothing to the trace; a relaunch timer that
  was pending when the signal came still fires and runs its callback.
\<close>

theorem signal_detaches_and_kills:
  assumes "exited s = None" "child s = Some c"
  shows "step opts (Signal sg) s =
     s\<lparr>child := Some (c\<lparr>exit_listener := False\<rparr>),
       trace := trace s @ [Remove_all_listeners, Kill]\<rparr> \<and>
   exited (step opts (Signal sg) s) = None \<and>
   timers (step opts (Signal sg) s) = timers s \<and>
   step opts (Child_exit code now) (step opts (Signal sg) s) =
     (step opts (Signal sg) s)\<lparr>child := Some (c\<lparr>exit_listener := False, running := False\<rparr>)\<rparr> \<and>
   step opts (Relaunch_timer now p) (step opts (Signal sg) s) =
     (case take_timer Relaunch_cb (timers s) of
        None \<Rightarrow> step opts (Signal sg) s
      | Some ts \<Rightarrow> relaunch_cb opts now p ((step opts (Signal sg) s)\<lparr>timers := ts\<rparr>))"
proof -
  have e: "step opts (Signal sg) s =
     s\<lparr>child := Some (c\<lparr>exit_listener := False\<rparr>),
       trace := trace s @ [Remove_all_listeners, Kill]\<rparr>"
    using assms by (simp add: step_def on_signal_def emit_def)
  have x: "exited (step opts (Signal sg) s) = None"
    using assms by (simp add: e)
  have c: "step opts (Child_exit code now) (step opts (Signal sg) s) =
     (step opts (Signal sg) s)\<lparr>child := Some (c\<lparr>exit_listener := False, running := False\<rparr>)\<rparr>"
    unfolding e using assms by (cases "running c") (simp_all add: step_def Let_def)
  have r: "step opts (Relaunch_timer now p) (step opts (Signal sg) s) =
     (case take_timer Relaunch_cb (timers s) of
        None \<Rightarrow> step opts (Signal sg) s
      | Some ts \<Rightarrow> relaunch_cb opts now p ((step opts (Signal sg) s)\<lparr>timers := ts\<rparr>))"
    using x by (simp add: step_def [of opts "Relaunch_timer now p"]) (simp add: e)
  show ?thesis
    using e x c r by simp
qed

theorem signal_detaches_and_kills_witness:
  "exited (base_start base_options) = None \<and>
   child (base_start base_options) =
     Some \<lparr>pid = Some 100, exit_listener = True, running = True\<rparr> \<and>
   step base_options (Signal SIGHUP) (base_start base_options) =
     (base_start base_options)
       \<lparr>child := Some \<lparr>pid = Some 100, exit_listener = False, running = True\<rparr>,
        trace := trace (base_start base_options) @ [Remove_all_listeners, Kill]\<rparr> \<and>
   exited (step base_options (Signal SIGHUP) (base_start base_options)) = None \<and>
   step base_options (Child_exit None 10)
       (step base_options (Signal SIGHUP) (base_start base_options)) =
     (step base_options (Signal SIGHUP) (base_start base_options))
       \<lparr>child := Some \<lparr>pid = Some 100, exit_listener = False, running = False\<rparr>\<rparr>"
proof -
  let ?c = "\<lparr>pid = Some 100, exit_listener = True, running = True\<rparr>"
  have h1: "exited (base_start base_options) = None"
    by (simp add: base_start_def start_def launch_fields init_def)
  have h2: "child (base_start base_options) = Some ?c"
    by (simp add: base_start_def start_def launch_fields)
  note t = signal_detaches_and_kills [OF h1 h2, where opts = base_options and sg = SIGHUP
      and code = None and now = 10 and p = "Some 101"]
  note t2 = conjunct2 [OF t]
  note t4 = conjunct2 [OF conjunct2 [OF t2]]
  have c1: "step base_options (Signal SIGHUP) (base_start base_options) =
     (base_start base_options)
       \<lparr>child := Some \<lparr>pid = Some 100, exit_listener = False, running = True\<rparr>,
        trace := trace (base_start base_options) @ [Remove_all_listeners, Kill]\<rparr>"
    using conjunct1 [OF t] by simp
  have c4: "step base_options (Child_exit None 10)
       (step base_options (Signal SIGHUP) (base_start base_options)) =
     (step base_options (Signal SIGHUP) (base_start base_options))
       \<lparr>child := Some \<lparr>pid = Some 100, exit_listener = False, running = False\<rparr>\<rparr>"
    using conjunct1 [OF t4] by simp
  show ?thesis
    by (intro conjI h1 h2 c1 c4 conjunct1 [OF t2])
qed

theorem signal_does_not_terminate_counterexample:
  "exited (step base_options (Signal SIGTERM) (base_start base_options)) = None \<and>
   exited (run base_options
       [Child_exit (Some 1) 10, Signal SIGTERM, Relaunch_timer 11 (Some 101)]
       (base_start base_options)) = None \<and>
   launches (trace (run base_options
       [Child_exit (Some 1) 10, Signal SIGTERM, Relaunch_timer 11 (Some 101)]
       (base_start base_options))) = 2 \<and>
   child (run base_options
       [Child_exit (Some 1) 10, Signal SIGTERM, Relaunch_timer 11 (Some 101)]
       (base_start base_options)) =
     Some \<lparr>pid = Some 101, exit_listener = True, running = True\<rparr>"
  by (simp add: sup_defs)

section \<open>The lifetime cap\<close>

lemma launches_process_exit: "launches (trace (process_exit x s)) = launches (trace s)"
  by (simp add: process_exit_def on_process_exit_def emit_def launches_append
      split: option.splits)

lemma launches_uncaught: "launches (trace (uncaught s)) = launches (trace s)"
  by (simp add: uncaught_def launches_process_exit emit_def launches_append)

lemma launches_monitor: "launches (trace (monitor opts now s)) = launches (trace s)"
  by (simp add: monitor_def launches_process_exit launches_uncaught emit_def launches_append
      split: option.splits)

lemma launches_on_child_exit:
  "launches (trace (on_child_exit opts code now s)) = launches (trace s)"
  by (simp add: on_child_exit_def launches_process_exit launches_uncaught launches_monitor
      emit_def launches_append split: option.splits)

lemma launches_on_signal: "launches (trace (on_signal sg s)) = launches (trace s)"
  by (simp add: on_signal_def launches_uncaught emit_def launches_append split: option.splits)

lemma attempts_on_signal: "attempts (on_signal sg s) = attempts s"
  by (simp add: on_signal_def uncaught_fields emit_def split: option.splits)

lemma launches_launch: "launches (trace (launch opts now p s)) = Suc (launches (trace s))"
  by (simp add: launch_window launches_append)

lemma cap_inv_same:
  assumes "cap_inv N s" "exited s = None"
    "launches (trace s') = launches (trace s)" "attempts s' = attempts s"
  shows "cap_inv N s'"
  using assms by (simp add: cap_inv_def)

lemma cap_inv_relaunch_cb:
  assumes m: "maxRestarts opts = Some N" "0 \<le> N"
    and i: "cap_inv N s" "exited s = None"
  shows "cap_inv N (relaunch_cb opts now p s)"
proof (cases "of_nat (attempts s + 1) > N")
  case True
  then have "relaunch_cb opts now p s =
      process_exit Exit_default
        (emit [Console_error (cap_message opts)]
           (s\<lparr>wait := mul64 (wait s) (growPercentage opts), attempts := attempts s + 1\<rparr>))"
    using m by (simp add: relaunch_cb_def Let_def)
  then show ?thesis
    using i by (simp add: cap_inv_def launches_process_exit process_exit_fields emit_def
        launches_append)
next
  case False
  then have a: "of_nat (attempts s) + 1 \<le> N"
    by simp
  have "relaunch_cb opts now p s =
      launch opts now p (s\<lparr>wait := mul64 (wait s) (growPercentage opts), attempts := attempts s + 1\<rparr>)"
    using m False by (simp add: relaunch_cb_def Let_def)
  moreover have "of_nat (launches (trace s)) \<le> (of_nat (attempts s) + 1 :: rat)"
  proof -
    have "launches (trace s) \<le> attempts s + 1"
      using i(1) by (simp add: cap_inv_def)
    then have "(of_nat (launches (trace s)) :: rat) \<le> of_nat (attempts s + 1)"
      by (simp only: of_nat_le_iff)
    then show ?thesis
      by simp
  qed
  ultimately show ?thesis
    using i a by (simp add: cap_inv_def launches_launch launch_fields)
qed

lemma cap_inv_step_env:
  assumes "cap_inv N s"
  shows "cap_inv N (step opts (Child_stdout n chunk) s)"
    "cap_inv N (step opts (Child_stderr n chunk) s)"
    "cap_inv N (step opts Child_error s)"
    "cap_inv N (step opts Loop_empty s)"
    "cap_inv N (step opts (Other_exit code) s)"
    "cap_inv N (step opts Fatal_signal s)"
  using assms
  by (simp_all add: step_def cap_inv_def emit_def unhandled_error_def process_exit_fields
      launches_process_exit launches_append split: option.splits)

lemma cap_inv_step:
  assumes m: "maxRestarts opts = Some N" "0 \<le> N" and i: "cap_inv N s"
  shows "cap_inv N (step opts e s)"
proof (cases "exited s")
  case (Some x)
  then show ?thesis
    using i by (simp add: step_exited)
next
  case None
  show ?thesis
  proof (cases e)
    case (Child_exit code now)
    show ?thesis
      by (rule cap_inv_same [OF i None])
        (simp_all add: Child_exit step_child_exit_keeps,
         simp add: step_def None Let_def launches_on_child_exit split: option.splits)
  next
    case (Relaunch_timer now p)
    have "cap_inv N (relaunch_cb opts now p (s\<lparr>timers := ts\<rparr>))" for ts
      by (rule cap_inv_relaunch_cb [OF m]) (use i None in \<open>simp_all add: cap_inv_def\<close>)
    then show ?thesis
      using i by (simp add: step_def Relaunch_timer split: option.splits)
  next
    case Window_timer
    show ?thesis
      by (rule cap_inv_same [OF i None])
        (simp_all add: step_def Window_timer window_cb_def split: option.splits)
  next
    case (Signal sg)
    show ?thesis
      by (rule cap_inv_same [OF i None])
        (simp_all add: step_def Signal None launches_on_signal attempts_on_signal)
  qed (simp_all add: cap_inv_step_env [OF i])
qed

lemma cap_inv_run:
  "maxRestarts opts = Some N \<Longrightarrow> 0 \<le> N \<Longrightarrow> cap_inv N s \<Longrightarrow> cap_inv N (run opts evs s)"
  by (induction evs arbitrary: s) (simp_all add: run_Nil run_Cons cap_inv_step)

lemma cap_inv_start: "0 \<le> N \<Longrightarrow> cap_inv N (start opts av now p)"
  by (simp add: cap_inv_def start_def launches_launch launch_fields init_def)

text \<open>
  C4. With \<open>maxRestarts = N\<close> and \<open>N \<ge> 0\<close>, every run of the supervisor launches the
  child at most \<open>N + 1\<close> times: the launch of \<open>start\<close> and at most \<open>N\<close> relaunches,
  whatever the events and the readings of the clock are. When the timer callback
  raises \<open>attempts\<close> above \<open>N\<close>, it logs that the child will not be restarted and calls
  \<open>process.exit()\<close>, which ends the process with status 0, and it launches nothing.
  With a negative \<open>maxRestarts\<close>, or none, the callback always launches.
\<close>

theorem lifetime_cap:
  "(maxRestarts opts = Some N \<and> 0 \<le> N \<longrightarrow>
      of_nat (launches (trace (run opts evs (start opts av t0 p0)))) \<le> N + 1) \<and>
   (\<forall>c. maxRestarts opts = Some N \<and> 0 \<le> N \<and> N < of_nat (attempts s) + 1 \<and>
        child s = Some c \<longrightarrow>
      relaunch_cb opts now p s =
        s\<lparr>wait := mul64 (wait s) (growPercentage opts), attempts := attempts s + 1,
          child := Some (c\<lparr>exit_listener := False\<rparr>),
          trace := trace s @
            [Console_error (name opts @
               '' will not be restarted because the maximum number of total restarts has been exceeded.''),
             Process_exit Exit_default, Remove_all_listeners, Kill],
          exited := Some Exit_default\<rparr> \<and>
      map_option exit_status (exited (relaunch_cb opts now p s)) = Some 0 \<and>
      launches (trace (relaunch_cb opts now p s)) = launches (trace s)) \<and>
   ((case maxRestarts opts of None \<Rightarrow> True | Some m \<Rightarrow> m < 0) \<longrightarrow>
      relaunch_cb opts now p s =
        launch opts now p (s\<lparr>wait := mul64 (wait s) (growPercentage opts), attempts := attempts s + 1\<rparr>))"
proof (intro conjI impI allI)
  assume "maxRestarts opts = Some N \<and> 0 \<le> N"
  then have "cap_inv N (run opts evs (start opts av t0 p0))"
    by (simp add: cap_inv_run cap_inv_start)
  then show "of_nat (launches (trace (run opts evs (start opts av t0 p0)))) \<le> N + 1"
    by (simp add: cap_inv_def)
next
  fix c
  assume a: "maxRestarts opts = Some N \<and> 0 \<le> N \<and> N < of_nat (attempts s) + 1 \<and>
    child s = Some c"
  then have r: "relaunch_cb opts now p s =
      process_exit Exit_default
        (emit [Console_error (cap_message opts)]
           (s\<lparr>wait := mul64 (wait s) (growPercentage opts), attempts := attempts s + 1\<rparr>))"
    by (simp add: relaunch_cb_def Let_def)
  show "relaunch_cb opts now p s =
        s\<lparr>wait := mul64 (wait s) (growPercentage opts), attempts := attempts s + 1,
          child := Some (c\<lparr>exit_listener := False\<rparr>),
          trace := trace s @
            [Console_error (name opts @
               '' will not be restarted because the maximum number of total restarts has been exceeded.''),
             Process_exit Exit_default, Remove_all_listeners, Kill],
          exited := Some Exit_default\<rparr>"
    using a unfolding r
    by (simp add: process_exit_def on_process_exit_def emit_def cap_message_def)
  show "map_option exit_status (exited (relaunch_cb opts now p s)) = Some 0"
    unfolding r by (simp add: process_exit_fields)
  show "launches (trace (relaunch_cb opts now p s)) = launches (trace s)"
    unfolding r by (simp add: launches_process_exit emit_def launches_append)
next
  assume "case maxRestarts opts of None \<Rightarrow> True | Some m \<Rightarrow> m < 0"
  then show "relaunch_cb opts now p s =
      launch opts now p (s\<lparr>wait := mul64 (wait s) (growPercentage opts), attempts := attempts s + 1\<rparr>)"
    by (auto simp add: relaunch_cb_def Let_def split: option.splits)
qed

theorem lifetime_cap_witness:
  "maxRestarts (base_options\<lparr>maxRestarts := Some 2\<rparr>) = Some 2 \<and> (0::rat) \<le> 2 \<and>
   (of_nat (launches (trace (run (base_options\<lparr>maxRestarts := Some 2\<rparr>)
      [Child_exit (Some 1) 5, Relaunch_timer 6 (Some 101),
       Child_exit (Some 1) 10, Relaunch_timer 12 (Some 102),
       Child_exit (Some 1) 15, Relaunch_timer 19 (Some 103)]
      (base_start (base_options\<lparr>maxRestarts := Some 2\<rparr>))))) :: rat) \<le> 2 + 1 \<and>
   launches (trace (run (base_options\<lparr>maxRestarts := Some 2\<rparr>)
      [Child_exit (Some 1) 5, Relaunch_timer 6 (Some 101),
       Child_exit (Some 1) 10, Relaunch_timer 12 (Some 102),
       Child_exit (Some 1) 15, Relaunch_timer 19 (Some 103)]
      (base_start (base_options\<lparr>maxRestarts := Some 2\<rparr>)))) = 3 \<and>
   (2::rat) < of_nat (attempts (run (base_options\<lparr>maxRestarts := Some 2\<rparr>)
      [Child_exit (Some 1) 5, Relaunch_timer 6 (Some 101),
       Child_exit (Some 1) 10, Relaunch_timer 12 (Some 102), Child_exit (Some 1) 15]
      (base_start (base_options\<lparr>maxRestarts := Some 2\<rparr>)))) + 1 \<and>
   child (run (base_options\<lparr>maxRestarts := Some 2\<rparr>)
      [Child_exit (Some 1) 5, Relaunch_timer 6 (Some 101),
       Child_exit (Some 1) 10, Relaunch_timer 12 (Some 102), Child_exit (Some 1) 15]
      (base_start (base_options\<lparr>maxRestarts := Some 2\<rparr>))) =
     Some \<lparr>pid = None, exit_listener = True, running = False\<rparr> \<and>
   map_option exit_status
     (exited (relaunch_cb (base_options\<lparr>maxRestarts := Some 2\<rparr>) 19 (Some 103)
        (run (base_options\<lparr>maxRestarts := Some 2\<rparr>)
           [Child_exit (Some 1) 5, Relaunch_timer 6 (Some 101),
            Child_exit (Some 1) 10, Relaunch_timer 12 (Some 102), Child_exit (Some 1) 15]
           (base_start (base_options\<lparr>maxRestarts := Some 2\<rparr>))))) = Some 0 \<and>
   (case maxRestarts (base_options\<lparr>maxRestarts := Some (- 1)\<rparr>) of
      None \<Rightarrow> True | Some m \<Rightarrow> m < 0) \<and>
   relaunch_cb (base_options\<lparr>maxRestarts := Some (- 1)\<rparr>) 6 (Some 101)
       (base_start (base_options\<lparr>maxRestarts := Some (- 1)\<rparr>)) =
     launch (base_options\<lparr>maxRestarts := Some (- 1)\<rparr>) 6 (Some 101)
       ((base_start (base_options\<lparr>maxRestarts := Some (- 1)\<rparr>))
          \<lparr>wait := mul64 (wait (base_start (base_options\<lparr>maxRestarts := Some (- 1)\<rparr>)))
                    (growPercentage (base_options\<lparr>maxRestarts := Some (- 1)\<rparr>)),
           attempts := attempts (base_start (base_options\<lparr>maxRestarts := Some (- 1)\<rparr>)) + 1\<rparr>)"
proof -
  let ?o = "base_options\<lparr>maxRestarts := Some 2\<rparr>"
  let ?n = "base_options\<lparr>maxRestarts := Some (- 1)\<rparr>"
  let ?evs = "[Child_exit (Some 1) 5, Relaunch_timer 6 (Some 101),
       Child_exit (Some 1) 10, Relaunch_timer 12 (Some 102), Child_exit (Some 1) 15]"
  let ?s = "run ?o ?evs (base_start ?o)"
  let ?c = "\<lparr>pid = None, exit_listener = True, running = False\<rparr>"
  have h1: "maxRestarts ?o = Some 2 \<and> (0::rat) \<le> 2"
    by simp
  have a: "attempts ?s = 2"
    by (simp add: sup_defs)
  have c: "child ?s = Some ?c"
    by (simp add: sup_defs)
  have h2: "maxRestarts ?o = Some 2 \<and> (0::rat) \<le> 2 \<and> (2::rat) < of_nat (attempts ?s) + 1 \<and>
      child ?s = Some ?c"
    by (simp add: a c)
  have h3: "case maxRestarts ?n of None \<Rightarrow> True | Some m \<Rightarrow> m < 0"
    by simp
  have l: "launches (trace (run ?o (?evs @ [Relaunch_timer 19 (Some 103)]) (base_start ?o))) = 3"
    by (simp add: sup_defs)
  note t = lifetime_cap [where opts = ?o and N = 2
      and evs = "?evs @ [Relaunch_timer 19 (Some 103)]" and av = base_argv and ?t0.0 = 0
      and ?p0.0 = "Some 100" and s = ?s and now = 19 and p = "Some 103"]
  note u = lifetime_cap [where opts = ?n and s = "base_start ?n" and now = 6 and p = "Some 101"]
  have t1: "(of_nat (launches (trace (run ?o (?evs @ [Relaunch_timer 19 (Some 103)])
      (base_start ?o)))) :: rat) \<le> 2 + 1"
    using conjunct1 [OF t] h1 unfolding base_start_def by blast
  have t2: "map_option exit_status (exited (relaunch_cb ?o 19 (Some 103) ?s)) = Some 0"
    using conjunct1 [OF conjunct2 [OF t]] h2 by blast
  have t3: "relaunch_cb ?n 6 (Some 101) (base_start ?n) =
     launch ?n 6 (Some 101)
       ((base_start ?n)\<lparr>wait := mul64 (wait (base_start ?n)) (growPercentage ?n),
          attempts := attempts (base_start ?n) + 1\<rparr>)"
    using conjunct2 [OF conjunct2 [OF u]] h3 by blast
  show ?thesis
    using h2 h3 t1 t2 t3 l by simp
qed

section \<open>The delays of the relaunches\<close>

lemma delays_process_exit:
  "relaunch_delays (trace (process_exit x s)) = relaunch_delays (trace s)"
  by (simp add: process_exit_def on_process_exit_def emit_def relaunch_delays_append
      split: option.splits)

lemma delay_inv_process_exit:
  assumes "delay_inv g s"
  shows "delay_inv g (process_exit x s)"
proof (cases "child s")
  case None
  then show ?thesis
    using assms
    by (simp add: delay_inv_def delays_process_exit process_exit_fields)
      (simp add: process_exit_def on_process_exit_def emit_def)
next
  case (Some c)
  then show ?thesis
    using assms
    by (simp add: delay_inv_def delays_process_exit process_exit_fields)
      (simp add: process_exit_child split: if_splits)
qed

lemma delay_inv_emit:
  "delay_inv g s \<Longrightarrow> relaunch_delays as = [] \<Longrightarrow> delay_inv g (emit as s)"
  by (auto simp add: delay_inv_def emit_def relaunch_delays_append split: option.splits)

lemma delay_inv_uncaught: "delay_inv g s \<Longrightarrow> delay_inv g (uncaught s)"
  by (simp add: uncaught_def delay_inv_process_exit delay_inv_emit)

lemma delay_inv_monitor:
  assumes "delay_inv g s" "child s = Some c" "\<not> running c" "no_pid c"
    "pending Relaunch_cb (timers s) = 0"
  shows "delay_inv g (monitor opts now s)"
proof -
  define storm where "storm \<longleftrightarrow> of_nat (starts s) \<ge> maxRetries opts \<and>
     now - max_secs * 1000 - (case startTime s of None \<Rightarrow> 0 | Some t \<Rightarrow> t) > 0"
  have m: "monitor opts now s =
      (if storm then process_exit (Exit_code 1) (emit [Console_error storm_message] s)
       else emit [Set_timeout Relaunch_cb (wait s)]
              (s\<lparr>timers := timers s @ [(Relaunch_cb, wait s)]\<rparr>))"
    using assms(2,4) by (simp add: monitor_def storm_def)
  show ?thesis
  proof (cases storm)
    case True
    then show ?thesis
      using assms(1) by (simp add: m delay_inv_process_exit delay_inv_emit)
  next
    case False
    have "delay_inv g (emit [Set_timeout Relaunch_cb (wait s)]
              (s\<lparr>timers := timers s @ [(Relaunch_cb, wait s)]\<rparr>))"
      using assms
      by (simp add: delay_inv_def emit_def relaunch_delays_append pending_append)
        (simp add: pending_def)
    then show ?thesis
      using False by (simp add: m)
  qed
qed

lemma delay_inv_on_child_exit:
  assumes "delay_inv g s" "child s = Some c" "\<not> running c"
    "pending Relaunch_cb (timers s) = 0"
  shows "delay_inv g (on_child_exit opts code now s)"
proof (cases "code \<noteq> Some 0 \<and> exitOnError opts")
  case True
  then show ?thesis
    using assms(1) by (simp add: on_child_exit_def delay_inv_process_exit delay_inv_emit)
next
  case False
  have "delay_inv g (s\<lparr>child := Some (c\<lparr>pid := None\<rparr>)\<rparr>)"
    using assms by (simp add: delay_inv_def)
  then have "delay_inv g (monitor opts now (s\<lparr>child := Some (c\<lparr>pid := None\<rparr>)\<rparr>))"
    by (rule delay_inv_monitor [where c = "c\<lparr>pid := None\<rparr>"])
      (use assms in \<open>simp_all add: no_pid_def\<close>)
  then show ?thesis
    using False assms(2) by (auto simp add: on_child_exit_def)
qed

lemma delay_inv_launch:
  assumes "delay_inv g s" "pending Relaunch_cb (timers s) = 0"
  shows "delay_inv g (launch opts now p s)"
  using assms
  by (simp add: delay_inv_def launch_fields launch_window relaunch_delays_append pending_append)
    (simp add: pending_def)

lemma delay_inv_relaunch_cb:
  assumes i: "delay_inv (growPercentage opts) s"
    and t: "take_timer Relaunch_cb (timers s) = Some ts"
  shows "delay_inv (growPercentage opts) (relaunch_cb opts now p (s\<lparr>timers := ts\<rparr>))"
proof -
  let ?g = "growPercentage opts"
  let ?s1 = "s\<lparr>timers := ts, wait := mul64 (wait s) ?g, attempts := attempts s + 1\<rparr>"
  have p: "pending Relaunch_cb (timers s) = Suc (pending Relaunch_cb ts)"
    using take_timer_pending [OF t] by simp
  have z: "pending Relaunch_cb ts = 0"
    using i p by (auto simp add: delay_inv_def split: option.splits if_splits)
  have d: "delay_inv ?g ?s1"
    using i p z by (auto simp add: delay_inv_def split: option.splits if_splits)
  have "relaunch_cb opts now p (s\<lparr>timers := ts\<rparr>) =
        process_exit Exit_default (emit [Console_error (cap_message opts)] ?s1) \<or>
      relaunch_cb opts now p (s\<lparr>timers := ts\<rparr>) = launch opts now p ?s1"
    by (simp add: relaunch_cb_def Let_def)
  moreover have "delay_inv ?g
      (process_exit Exit_default (emit [Console_error (cap_message opts)] ?s1))"
    using d by (simp add: delay_inv_process_exit delay_inv_emit)
  moreover have "delay_inv ?g (launch opts now p ?s1)"
    by (rule delay_inv_launch [OF d]) (simp add: z)
  ultimately show ?thesis
    by auto
qed

lemma delay_inv_on_signal: "delay_inv g s \<Longrightarrow> delay_inv g (on_signal sg s)"
  by (cases "child s")
    (simp_all add: on_signal_def delay_inv_uncaught,
     auto simp add: delay_inv_def emit_def relaunch_delays_append split: if_splits)

lemma delay_inv_step_env:
  assumes "delay_inv g s"
  shows "delay_inv g (step opts (Child_stdout n chunk) s)"
    "delay_inv g (step opts (Child_stderr n chunk) s)"
    "delay_inv g (step opts Child_error s)"
    "delay_inv g (step opts Loop_empty s)"
    "delay_inv g (step opts (Other_exit code) s)"
    "delay_inv g (step opts Fatal_signal s)"
proof -
  have a: "delay_inv g (emit [Stdout_write bs] s)" "delay_inv g (emit [Stderr_write bs] s)"
    "delay_inv g (emit [Unhandled_error] s)" for bs
    using assms by (simp_all add: delay_inv_emit)
  have b: "delay_inv g (s\<lparr>exited := x\<rparr>)" for x
    using assms by (auto simp add: delay_inv_def split: option.splits)
  show "delay_inv g (step opts (Child_stdout n chunk) s)"
    "delay_inv g (step opts (Child_stderr n chunk) s)"
    "delay_inv g (step opts Child_error s)"
    "delay_inv g (step opts Loop_empty s)"
    "delay_inv g (step opts (Other_exit code) s)"
    "delay_inv g (step opts Fatal_signal s)"
    using assms a b
    by (simp_all add: step_def unhandled_error_def delay_inv_process_exit
        split: option.splits)
qed

lemma delay_inv_step:
  assumes i: "delay_inv (growPercentage opts) s"
  shows "delay_inv (growPercentage opts) (step opts e s)"
proof (cases "exited s")
  case (Some x)
  then show ?thesis
    using i by (simp add: step_exited)
next
  case None
  show ?thesis
  proof (cases e)
    case (Child_exit code now)
    show ?thesis
    proof (cases "child s")
      case None
      then show ?thesis
        using i \<open>exited s = None\<close> by (simp add: step_def Child_exit)
    next
      case (Some c)
      show ?thesis
      proof (cases "running c")
        case False
        then show ?thesis
          using i Some \<open>exited s = None\<close> by (simp add: step_def Child_exit)
      next
        case True
        let ?s1 = "s\<lparr>child := Some (c\<lparr>running := False\<rparr>)\<rparr>"
        have z: "pending Relaunch_cb (timers s) = 0"
          using i Some True by (simp add: delay_inv_def)
        have d: "delay_inv (growPercentage opts) ?s1"
          using i Some True by (simp add: delay_inv_def)
        have "delay_inv (growPercentage opts) (on_child_exit opts code now ?s1)"
          by (rule delay_inv_on_child_exit [OF d, where c = "c\<lparr>running := False\<rparr>"])
            (simp_all add: z)
        then show ?thesis
          using d Some True \<open>exited s = None\<close> by (simp add: step_def Child_exit Let_def)
      qed
    qed
  next
    case (Relaunch_timer now p)
    then show ?thesis
      using i None by (simp add: step_def delay_inv_relaunch_cb split: option.splits)
  next
    case Window_timer
    have "delay_inv (growPercentage opts) (window_cb (s\<lparr>timers := ts\<rparr>))"
      if "take_timer Window_cb (timers s) = Some ts" for ts
      using i take_timer_pending [OF that]
      by (auto simp add: delay_inv_def window_cb_def split: option.splits)
    then show ?thesis
      using i None by (simp add: step_def Window_timer split: option.splits)
  next
    case (Signal sg)
    then show ?thesis
      using i None by (simp add: step_def delay_inv_on_signal)
  qed (simp_all add: delay_inv_step_env [OF i])
qed

lemma delay_inv_run:
  "delay_inv (growPercentage opts) s \<Longrightarrow> delay_inv (growPercentage opts) (run opts evs s)"
  by (induction evs arbitrary: s) (simp_all add: run_Nil run_Cons delay_inv_step)

lemma delay_inv_start: "delay_inv g (start opts av now p)"
  unfolding start_def
  by (rule delay_inv_launch) (simp_all add: delay_inv_def init_def pending_def)

lemma relaunch_delays_run:
  "relaunch_delays (trace (run opts evs (start opts av t0 p0))) =
     map (grow (growPercentage opts))
       [0..<length (relaunch_delays (trace (run opts evs (start opts av t0 p0))))]"
proof -
  have "delay_inv (growPercentage opts) (run opts evs (start opts av t0 p0))"
    by (rule delay_inv_run [OF delay_inv_start])
  then obtain n where
    "relaunch_delays (trace (run opts evs (start opts av t0 p0))) =
       map (grow (growPercentage opts)) [0..<n]"
    by (auto simp add: delay_inv_def)
  then show ?thesis
    by simp
qed

text \<open>
  C3, at an input where the code departs from it. Whatever the options and the events
  are, the delays of the relaunch timers that a run arms are 1 ms, then the rounded
  product of 1 and \<open>growPercentage\<close>, then of that and \<open>growPercentage\<close>, and so on:
  \<open>wait\<close> starts at 1, and the only assignment that reads \<open>restartDelay\<close> is in the
  branch that no run takes. With
  \<open>restartDelay = 5\<close> (5000 ms) and \<open>growPercentage = 2\<close>, a child that exits three
  times is relaunched after 1 ms and 2 ms, and the third timer is armed for 4 ms.
\<close>

theorem relaunch_delay_ignores_restartDelay:
  "relaunch_delays (trace (run opts evs (start opts av t0 p0))) =
     map (grow (growPercentage opts))
       [0..<length (relaunch_delays (trace (run opts evs (start opts av t0 p0))))] \<and>
   mul64 (restartDelay (base_options\<lparr>growPercentage := Fin 2, restartDelay := Fin 5\<rparr>))
     (Fin 1000) = Fin 5000 \<and>
   relaunch_delays (trace (run (base_options\<lparr>growPercentage := Fin 2, restartDelay := Fin 5\<rparr>)
      [Child_exit (Some 1) 10, Relaunch_timer 11 (Some 101),
       Child_exit (Some 1) 20, Relaunch_timer 22 (Some 102),
       Child_exit (Some 1) 30]
      (base_start (base_options\<lparr>growPercentage := Fin 2, restartDelay := Fin 5\<rparr>)))) =
     [Fin 1, Fin 2, Fin 4]"
proof -
  have "relaunch_delays (trace (run (base_options\<lparr>growPercentage := Fin 2, restartDelay := Fin 5\<rparr>)
      [Child_exit (Some 1) 10, Relaunch_timer 11 (Some 101),
       Child_exit (Some 1) 20, Relaunch_timer 22 (Some 102),
       Child_exit (Some 1) 30]
      (base_start (base_options\<lparr>growPercentage := Fin 2, restartDelay := Fin 5\<rparr>)))) =
     [Fin 1, Fin 2, Fin 4]"
    by (simp add: sup_defs round64_small)
  moreover have "mul64 (restartDelay (base_options\<lparr>growPercentage := Fin 2, restartDelay := Fin 5\<rparr>))
     (Fin 1000) = Fin 5000"
    using round64_int [of 5000] by simp
  ultimately show ?thesis
    using relaunch_delays_run [of opts evs av t0 p0] by blast
qed

section \<open>The restart-storm guard\<close>

lemma monitor_within_window:
  assumes "child s = Some c" "no_pid c" "startTime s = Some t" "now \<le> t + 6000"
  shows "monitor opts now s =
     emit [Set_timeout Relaunch_cb (wait s)] (s\<lparr>timers := timers s @ [(Relaunch_cb, wait s)]\<rparr>)"
  using assms by (simp add: monitor_def max_secs_def)

text \<open>
  C1, at an input where the code departs from it. With \<open>maxRetries = 1\<close> the first
  launch, at time 0, already brings \<open>starts\<close> to the maximum. The child exits 10 ms
  later, inside the window of 6000 ms: the supervisor does not end, it arms the
  relaunch timer, and 1 ms later it launches the child again, in the same window
  (\<open>startTime\<close> is still 0 and \<open>starts\<close> becomes 2). The guard ends the process only
  when the child exits after the window has passed and before its timer has fired:
  at time 6001, after a single launch.
\<close>

theorem storm_guard_misses_within_window:
  "maxRetries (base_options\<lparr>maxRetries := 1\<rparr>) = 1 \<and>
   starts (base_start (base_options\<lparr>maxRetries := 1\<rparr>)) = 1 \<and>
   startTime (base_start (base_options\<lparr>maxRetries := 1\<rparr>)) = Some 0 \<and>
   exited (run (base_options\<lparr>maxRetries := 1\<rparr>) [Child_exit (Some 1) 10]
     (base_start (base_options\<lparr>maxRetries := 1\<rparr>))) = None \<and>
   timers (run (base_options\<lparr>maxRetries := 1\<rparr>) [Child_exit (Some 1) 10]
     (base_start (base_options\<lparr>maxRetries := 1\<rparr>))) = [(Window_cb, Fin 6001), (Relaunch_cb, Fin 1)] \<and>
   exited (run (base_options\<lparr>maxRetries := 1\<rparr>)
     [Child_exit (Some 1) 10, Relaunch_timer 11 (Some 101)]
     (base_start (base_options\<lparr>maxRetries := 1\<rparr>))) = None \<and>
   launches (trace (run (base_options\<lparr>maxRetries := 1\<rparr>)
     [Child_exit (Some 1) 10, Relaunch_timer 11 (Some 101)]
     (base_start (base_options\<lparr>maxRetries := 1\<rparr>)))) = 2 \<and>
   startTime (run (base_options\<lparr>maxRetries := 1\<rparr>)
     [Child_exit (Some 1) 10, Relaunch_timer 11 (Some 101)]
     (base_start (base_options\<lparr>maxRetries := 1\<rparr>))) = Some 0 \<and>
   starts (run (base_options\<lparr>maxRetries := 1\<rparr>)
     [Child_exit (Some 1) 10, Relaunch_timer 11 (Some 101)]
     (base_start (base_options\<lparr>maxRetries := 1\<rparr>))) = 2 \<and>
   exited (run (base_options\<lparr>maxRetries := 1\<rparr>) [Child_exit (Some 1) 6001]
     (base_start (base_options\<lparr>maxRetries := 1\<rparr>))) = Some (Exit_code 1)"
  by (simp add: sup_defs)

section \<open>The streams of the child\<close>

























lemma run_append: "run opts (xs @ ys) s = run opts ys (run opts xs s)"
  by (simp add: run_def)






section \<open>The defaults of the module\<close>

lemma quarter_pow: "((1 / 4) :: rat) ^ n = of_int 1 * 2 powi (- 2 * int n)"
proof -
  have "(2::rat) powi (- 2 * int n) = inverse (2 powi (2 * int n))"
    by (simp add: power_int_minus)
  also have "(2::rat) powi (2 * int n) = 2 ^ (2 * n)"
    by (simp add: power_int_def nat_mult_distrib)
  also have "(2::rat) ^ (2 * n) = 4 ^ n"
    by (simp add: power_mult)
  finally show ?thesis
    by (simp add: power_one_over inverse_eq_divide)
qed

lemma grow_quarter: "n \<le> 537 \<Longrightarrow> grow (Fin (1 / 4)) n = Fin ((1 / 4) ^ n)"
proof (induction n)
  case 0
  show ?case by simp
next
  case (Suc n)
  then have "grow (Fin (1 / 4)) n = Fin ((1 / 4) ^ n)"
    by simp
  then have "grow (Fin (1 / 4)) (Suc n) = round64 ((1 / 4) ^ Suc n)"
    by simp
  also have "\<dots> = Fin ((1 / 4) ^ Suc n)"
    using Suc.prems
    by (intro round64_exact [OF quarter_pow]) (simp_all add: emin_def emax_def prec_def)
  finally show ?case .
qed

lemma round64_quarter_tiny:
  assumes "538 \<le> n"
  shows "round64 ((1 / 4) ^ n) = Fin 0"
proof -
  have "\<bar>((1 / 4) :: rat) ^ n\<bar> = (1 / 4) ^ n"
    by simp
  also have "\<dots> = 2 powi (- 2 * int n)"
    using quarter_pow [of n] by simp
  also have "\<dots> \<le> 2 powi (emin - 1)"
    using assms by (intro power_int_increasing) (simp_all add: emin_def)
  finally show ?thesis
    by (rule round64_tiny)
qed

lemma grow_quarter_zero: "538 \<le> n \<Longrightarrow> grow (Fin (1 / 4)) n = Fin 0"
proof (induction n)
  case 0
  then show ?case by simp
next
  case (Suc n)
  show ?case
  proof (cases "n \<le> 537")
    case True
    then have "grow (Fin (1 / 4)) (Suc n) = round64 ((1 / 4) ^ Suc n)"
      by (simp add: grow_quarter)
    then show ?thesis
      using Suc.prems by (simp only: round64_quarter_tiny)
  next
    case False
    then have "grow (Fin (1 / 4)) n = Fin 0"
      using Suc by simp
    then show ?thesis
      by (simp add: round64_def)
  qed
qed

lemma grow_quarter_eq:
  "grow (Fin (1 / 4)) n = (if n \<le> 537 then Fin ((1 / 4) ^ n) else Fin 0)"
  by (simp add: grow_quarter grow_quarter_zero)


lemma grow_quarter_fun:
  "grow (Fin (1 / 4)) = (\<lambda>k. if k \<le> 537 then Fin ((1 / 4) ^ k) else Fin 0)"
  by (rule ext) (rule grow_quarter_eq)

lemma take_timer_none_append:
  "take_timer k ts = None \<Longrightarrow> take_timer k (ts @ [(k, d)]) = Some ts"
  by (induction ts) (auto split: if_splits option.splits)

lemma crash_cycle:
  assumes o: "maxRestarts opts = None" "\<not> exitOnError opts"
    and s: "exited s = None" "child s = Some c" "running c" "exit_listener c"
      "take_timer Relaunch_cb (timers s) = None" "startTime s = Some 0"
    and t: "now1 \<le> 6000"
  shows "exited (run opts [Child_exit (Some 1) now1, Relaunch_timer now2 (Some p)] s) = None"
    "child (run opts [Child_exit (Some 1) now1, Relaunch_timer now2 (Some p)] s) =
       Some \<lparr>pid = Some p, exit_listener = True, running = True\<rparr>"
    "take_timer Relaunch_cb
       (timers (run opts [Child_exit (Some 1) now1, Relaunch_timer now2 (Some p)] s)) = None"
    "startTime (run opts [Child_exit (Some 1) now1, Relaunch_timer now2 (Some p)] s) = Some 0"
    "length (relaunch_delays
       (trace (run opts [Child_exit (Some 1) now1, Relaunch_timer now2 (Some p)] s))) =
     Suc (length (relaunch_delays (trace s)))"
proof -
  let ?s1 = "step opts (Child_exit (Some 1) now1) s"
  have a: "?s1 =
      s\<lparr>child := Some (c\<lparr>running := False, pid := None\<rparr>),
        timers := timers s @ [(Relaunch_cb, wait s)],
        trace := trace s @ [Set_timeout Relaunch_cb (wait s)]\<rparr>"
    using o s t
    by (simp add: step_def Let_def on_child_exit_def monitor_def no_pid_def max_secs_def
        emit_def)
  have b: "step opts (Relaunch_timer now2 (Some p)) ?s1 =
      s\<lparr>child := Some \<lparr>pid = Some p, exit_listener = True, running = True\<rparr>,
        wait := mul64 (wait s) (growPercentage opts), attempts := attempts s + 1,
        starts := starts s + 1,
        trace := trace s @ [Set_timeout Relaunch_cb (wait s),
          Spawn (processExec opts) (''start'' # drop 2 (argv s))]\<rparr>"
    unfolding a using o s
    by (simp add: step_def take_timer_none_append relaunch_cb_def launch_def emit_def Let_def)
  show "exited (run opts [Child_exit (Some 1) now1, Relaunch_timer now2 (Some p)] s) = None"
    "child (run opts [Child_exit (Some 1) now1, Relaunch_timer now2 (Some p)] s) =
       Some \<lparr>pid = Some p, exit_listener = True, running = True\<rparr>"
    "take_timer Relaunch_cb
       (timers (run opts [Child_exit (Some 1) now1, Relaunch_timer now2 (Some p)] s)) = None"
    "startTime (run opts [Child_exit (Some 1) now1, Relaunch_timer now2 (Some p)] s) = Some 0"
    "length (relaunch_delays
       (trace (run opts [Child_exit (Some 1) now1, Relaunch_timer now2 (Some p)] s))) =
     Suc (length (relaunch_delays (trace s)))"
    using s by (simp_all add: run_def b relaunch_delays_append)
qed

lemma crash_loop_run:
  assumes "n \<le> 2000"
  shows "exited (run base_options (crash_loop n) (base_start base_options)) = None \<and>
    (\<exists>c. child (run base_options (crash_loop n) (base_start base_options)) = Some c \<and>
       running c \<and> exit_listener c) \<and>
    take_timer Relaunch_cb
      (timers (run base_options (crash_loop n) (base_start base_options))) = None \<and>
    startTime (run base_options (crash_loop n) (base_start base_options)) = Some 0 \<and>
    length (relaunch_delays
      (trace (run base_options (crash_loop n) (base_start base_options)))) = n"
  using assms
proof (induction n)
  case 0
  show ?case
    by (simp add: sup_defs)
next
  case (Suc n)
  let ?s = "run base_options (crash_loop n) (base_start base_options)"
  have i: "exited ?s = None" "take_timer Relaunch_cb (timers ?s) = None"
    "startTime ?s = Some 0" "length (relaunch_delays (trace ?s)) = n"
    using Suc by simp_all
  obtain c where c: "child ?s = Some c" "running c" "exit_listener c"
    using Suc by auto
  have o: "maxRestarts base_options = None" "\<not> exitOnError base_options"
    by (simp_all add: base_options_def)
  have t: "3 * int n + 1 \<le> 6000"
    using Suc.prems by simp
  note k = crash_cycle [OF o i(1) c i(2) i(3) t, of "3 * int n + 2" "101 + n"]
  have r: "run base_options (crash_loop (Suc n)) (base_start base_options) =
      run base_options
        [Child_exit (Some 1) (3 * int n + 1), Relaunch_timer (3 * int n + 2) (Some (101 + n))]
        ?s"
    by (simp add: run_append)
  show ?case
    unfolding r using k i(4) by simp
qed

text \<open>
  C10, as the code has it. \<open>module.exports.start\<close> gives \<open>start\<close> the options read off
  the object that has, for every property, the caller's value if the caller's object
  has the property and the default otherwise; the defaults are the five that the claim
  lists, and no options at all count as an empty object. With nothing but an
  executable the supervisor starts with exactly the defaults. When the caller gives no
  \<open>growPercentage\<close>, the factor is 0.25: the timer callback replaces \<open>wait\<close> by the
  rounded quarter of it, and the delays of the relaunch timers of every run are
  \<open>1, 1/4, 1/16, \<dots>\<close> down to \<open>(1/4) ^ 537\<close>, which is \<open>2 ^ -1074\<close>, the least
  positive number of binary64; the next quarter rounds to 0, so the delay is 0 from the
  539th timer on and decreases no more.
\<close>

theorem module_start_defaults:
  "(\<forall>k. Object_assign defaults src k = (case src k of Some v \<Rightarrow> Some v | None \<Rightarrow> defaults k)) \<and>
   dom defaults =
     {''name'', ''exitOnError'', ''growPercentage'', ''maxRetries'', ''restartDelay''} \<and>
   defaults ''name'' = Some (JStr ''deepstream'') \<and>
   defaults ''exitOnError'' = Some (JBool False) \<and>
   defaults ''growPercentage'' = Some (JNum (Fin (1 / 4))) \<and>
   defaults ''maxRetries'' = Some (JNum (Fin 10)) \<and>
   defaults ''restartDelay'' = Some (JNum (Fin 1)) \<and>
   module_start None av now p = module_start (Some Map.empty) av now p \<and>
   module_start (Some src) av now p =
     map_option (\<lambda>conf. start conf av now p) (options_of (Object_assign defaults src)) \<and>
   module_start (Some [''processExec'' \<mapsto> JStr e]) av now p =
     Some (start \<lparr>name = ''deepstream'', exitOnError = False, growPercentage = Fin (1 / 4),
                  maxRetries = 10, restartDelay = Fin 1, maxRestarts = None,
                  processExec = e\<rparr> av now p) \<and>
   (\<forall>opts. options_of (Object_assign defaults src) = Some opts \<longrightarrow>
      Object_assign defaults src ''name'' = Some (JStr (name opts)) \<and>
      Object_assign defaults src ''exitOnError'' = Some (JBool (exitOnError opts)) \<and>
      Object_assign defaults src ''growPercentage'' = Some (JNum (growPercentage opts)) \<and>
      Object_assign defaults src ''maxRetries'' = Some (JNum (Fin (maxRetries opts))) \<and>
      Object_assign defaults src ''restartDelay'' = Some (JNum (restartDelay opts)) \<and>
      Object_assign defaults src ''processExec'' = Some (JStr (processExec opts)) \<and>
      maxRestarts opts =
        (case Object_assign defaults src ''maxRestarts'' of
           Some (JNum (Fin m)) \<Rightarrow> Some m
         | _ \<Rightarrow> None)) \<and>
   (\<forall>opts. src ''growPercentage'' = None \<and>
        options_of (Object_assign defaults src) = Some opts \<longrightarrow>
      growPercentage opts = Fin (1 / 4) \<and>
      (\<forall>s t q. wait (relaunch_cb opts t q s) = mul64 (wait s) (Fin (1 / 4))) \<and>
      (\<forall>evs.
         relaunch_delays (trace (run opts evs (start opts av now p))) =
           map (\<lambda>k. if k \<le> 537 then Fin ((1 / 4) ^ k) else Fin 0)
             [0..<length (relaunch_delays (trace (run opts evs (start opts av now p))))]))"
proof (intro conjI allI impI)
  fix k
  show "Object_assign defaults src k = (case src k of Some v \<Rightarrow> Some v | None \<Rightarrow> defaults k)"
    by (simp add: Object_assign_def map_add_def split: option.splits)
next
  show "dom defaults =
     {''name'', ''exitOnError'', ''growPercentage'', ''maxRetries'', ''restartDelay''}"
    by (auto simp add: defaults_def)
next
  show "module_start None av now p = module_start (Some Map.empty) av now p"
    by (simp add: module_start_def)
next
  show "module_start (Some src) av now p =
     map_option (\<lambda>conf. start conf av now p) (options_of (Object_assign defaults src))"
    by (simp add: module_start_def)
next
  show "module_start (Some [''processExec'' \<mapsto> JStr e]) av now p =
     Some (start \<lparr>name = ''deepstream'', exitOnError = False, growPercentage = Fin (1 / 4),
                  maxRetries = 10, restartDelay = Fin 1, maxRestarts = None,
                  processExec = e\<rparr> av now p)"
    by (simp add: module_start_def Object_assign_def options_of_def defaults_def)
next
  fix opts
  assume a: "options_of (Object_assign defaults src) = Some opts"
  define obj where "obj = Object_assign defaults src"
  have b: "options_of obj = Some opts"
    using a by (simp add: obj_def)
  have "obj ''name'' = Some (JStr (name opts)) \<and>
      obj ''exitOnError'' = Some (JBool (exitOnError opts)) \<and>
      obj ''growPercentage'' = Some (JNum (growPercentage opts)) \<and>
      obj ''maxRetries'' = Some (JNum (Fin (maxRetries opts))) \<and>
      obj ''restartDelay'' = Some (JNum (restartDelay opts)) \<and>
      obj ''processExec'' = Some (JStr (processExec opts)) \<and>
      maxRestarts opts =
        (case obj ''maxRestarts'' of Some (JNum (Fin m)) \<Rightarrow> Some m | _ \<Rightarrow> None)"
    using b unfolding options_of_def
    by (auto split: option.splits jsval.splits num64.splits)
  then show "Object_assign defaults src ''name'' = Some (JStr (name opts))"
    "Object_assign defaults src ''exitOnError'' = Some (JBool (exitOnError opts))"
    "Object_assign defaults src ''growPercentage'' = Some (JNum (growPercentage opts))"
    "Object_assign defaults src ''maxRetries'' = Some (JNum (Fin (maxRetries opts)))"
    "Object_assign defaults src ''restartDelay'' = Some (JNum (restartDelay opts))"
    "Object_assign defaults src ''processExec'' = Some (JStr (processExec opts))"
    "maxRestarts opts =
        (case Object_assign defaults src ''maxRestarts'' of
           Some (JNum (Fin m)) \<Rightarrow> Some m
         | _ \<Rightarrow> None)"
    unfolding obj_def by blast+
next
  fix opts
  assume a: "src ''growPercentage'' = None \<and>
    options_of (Object_assign defaults src) = Some opts"
  define obj where "obj = Object_assign defaults src"
  have "obj ''growPercentage'' = Some (JNum (Fin (1 / 4)))"
    using a by (simp add: obj_def Object_assign_def map_add_def defaults_def)
  moreover have "options_of obj = Some opts"
    using a by (simp add: obj_def)
  ultimately show g: "growPercentage opts = Fin (1 / 4)"
    unfolding options_of_def by (auto split: option.splits jsval.splits num64.splits)
  fix evs
  show "relaunch_delays (trace (run opts evs (start opts av now p))) =
           map (\<lambda>k. if k \<le> 537 then Fin ((1 / 4) ^ k) else Fin 0)
             [0..<length (relaunch_delays (trace (run opts evs (start opts av now p))))]"
    using relaunch_delays_run [of opts evs av now p]
    unfolding g grow_quarter_fun .
next
  fix opts s t q
  assume a: "src ''growPercentage'' = None \<and>
    options_of (Object_assign defaults src) = Some opts"
  define obj where "obj = Object_assign defaults src"
  have "obj ''growPercentage'' = Some (JNum (Fin (1 / 4)))"
    using a by (simp add: obj_def Object_assign_def map_add_def defaults_def)
  moreover have "options_of obj = Some opts"
    using a by (simp add: obj_def)
  ultimately have "growPercentage opts = Fin (1 / 4)"
    unfolding options_of_def by (auto split: option.splits jsval.splits num64.splits)
  then show "wait (relaunch_cb opts t q s) = mul64 (wait s) (Fin (1 / 4))"
    by (simp add: relaunch_cb_def Let_def process_exit_fields launch_fields emit_def)
qed (simp_all add: defaults_def)

theorem module_start_defaults_witness:
  "caller_options ''growPercentage'' = None \<and>
   options_of (Object_assign defaults caller_options) = Some merged_options \<and>
   module_start (Some caller_options) base_argv 0 (Some 100) =
     Some (start merged_options base_argv 0 (Some 100)) \<and>
   Object_assign defaults caller_options ''restartDelay'' =
     Some (JNum (restartDelay merged_options)) \<and>
   Object_assign defaults caller_options ''maxRetries'' =
     Some (JNum (Fin (maxRetries merged_options))) \<and>
   growPercentage merged_options = Fin (1 / 4) \<and>
   wait (relaunch_cb merged_options 11 (Some 101)
     (start merged_options base_argv 0 (Some 100))) = Fin (1 / 4) \<and>
   relaunch_delays (trace (run merged_options
      [Child_exit (Some 0) 10, Relaunch_timer 11 (Some 101),
       Child_exit (Some 0) 20, Relaunch_timer 22 (Some 102),
       Child_exit (Some 0) 30]
      (start merged_options base_argv 0 (Some 100)))) =
     [Fin 1, Fin (1 / 4), Fin (1 / 16)] \<and>
   module_start
     (Some [''growPercentage'' \<mapsto> JNum (Fin 2), ''processExec'' \<mapsto> JStr ''/usr/bin/ds''])
     base_argv 0 (Some 100) =
     Some (start \<lparr>name = ''deepstream'', exitOnError = False, growPercentage = Fin 2,
                  maxRetries = 10, restartDelay = Fin 1, maxRestarts = None,
                  processExec = ''/usr/bin/ds''\<rparr> base_argv 0 (Some 100))"
proof -
  let ?evs = "[Child_exit (Some 0) 10, Relaunch_timer 11 (Some 101),
       Child_exit (Some 0) 20, Relaunch_timer 22 (Some 102),
       Child_exit (Some 0) 30]"
  let ?s = "start merged_options base_argv 0 (Some 100)"
  have h1: "caller_options ''growPercentage'' = None"
    by (simp add: caller_options_def)
  have h2: "options_of (Object_assign defaults caller_options) = Some merged_options"
    by (simp add: caller_options_def merged_options_def options_of_def Object_assign_def
        defaults_def)
  note t = module_start_defaults [where src = caller_options and av = base_argv and now = 0
      and p = "Some 100"]
  note t8 = t [THEN conjunct2, THEN conjunct2, THEN conjunct2, THEN conjunct2,
      THEN conjunct2, THEN conjunct2, THEN conjunct2, THEN conjunct2]
  note t10 = t8 [THEN conjunct2, THEN conjunct2]
  have c1: "module_start (Some caller_options) base_argv 0 (Some 100) = Some ?s"
    using t8 [THEN conjunct1] unfolding h2 by simp
  note f = t10 [THEN conjunct1, THEN spec, THEN mp, OF h2]
  have c2: "Object_assign defaults caller_options ''restartDelay'' =
      Some (JNum (restartDelay merged_options))"
    by (rule f [THEN conjunct2, THEN conjunct2, THEN conjunct2, THEN conjunct2,
          THEN conjunct1])
  have c3: "Object_assign defaults caller_options ''maxRetries'' =
      Some (JNum (Fin (maxRetries merged_options)))"
    by (rule f [THEN conjunct2, THEN conjunct2, THEN conjunct2, THEN conjunct1])
  note g = t10 [THEN conjunct2, THEN spec, THEN mp, OF conjI [OF h1 h2]]
  have c4: "growPercentage merged_options = Fin (1 / 4)"
    using g by (rule conjunct1)
  have w: "wait ?s = Fin 1"
    by (simp add: start_def init_def launch_fields)
  have c5: "wait (relaunch_cb merged_options 11 (Some 101) ?s) = Fin (1 / 4)"
    using g [THEN conjunct2, THEN conjunct1, THEN spec, of ?s, THEN spec, of 11,
        THEN spec, of "Some 101"]
    unfolding w by (simp add: round64_small)
  have l: "length (relaunch_delays (trace (run merged_options ?evs ?s))) = 3"
    by (simp add: sup_defs merged_options_def)
  have u: "[0..<3] = [0, 1, 2]"
    by (simp add: upt_rec)
  have c6: "relaunch_delays (trace (run merged_options ?evs ?s)) =
      [Fin 1, Fin (1 / 4), Fin (1 / 16)]"
    using g [THEN conjunct2, THEN conjunct2, THEN spec, of ?evs]
    unfolding l u by (simp add: power2_eq_square)
  have c7: "module_start
     (Some [''growPercentage'' \<mapsto> JNum (Fin 2), ''processExec'' \<mapsto> JStr ''/usr/bin/ds''])
     base_argv 0 (Some 100) =
     Some (start \<lparr>name = ''deepstream'', exitOnError = False, growPercentage = Fin 2,
                  maxRetries = 10, restartDelay = Fin 1, maxRestarts = None,
                  processExec = ''/usr/bin/ds''\<rparr> base_argv 0 (Some 100))"
    using module_start_defaults [where
        src = "[''growPercentage'' \<mapsto> JNum (Fin 2), ''processExec'' \<mapsto> JStr ''/usr/bin/ds'']"
        and av = base_argv and now = 0 and p = "Some 100",
        THEN conjunct2, THEN conjunct2, THEN conjunct2, THEN conjunct2,
        THEN conjunct2, THEN conjunct2, THEN conjunct2, THEN conjunct2, THEN conjunct1]
    by (simp add: options_of_def Object_assign_def defaults_def)
  show ?thesis
    by (intro conjI h1 h2 c1 c2 c3 c4 c5 c6 c7)
qed

text \<open>
  The default configuration in a crash loop of 540 relaunches: all of them fall into
  the first 1620 ms, so the restart-storm guard never fires. The 539th and the 540th
  relaunch timer are both armed with the delay 0: the delay has stopped decreasing.
\<close>

theorem quartering_underflows_counterexample:
  "length (relaunch_delays
     (trace (run base_options (crash_loop 540) (base_start base_options)))) = 540 \<and>
   relaunch_delays
     (trace (run base_options (crash_loop 540) (base_start base_options))) ! 538 = Fin 0 \<and>
   relaunch_delays
     (trace (run base_options (crash_loop 540) (base_start base_options))) ! 539 = Fin 0"
proof -
  let ?d = "relaunch_delays
     (trace (run base_options (crash_loop 540) (base_start base_options)))"
  have l: "length ?d = 540"
    using crash_loop_run [of 540] by simp
  have g: "growPercentage base_options = Fin (1 / 4)"
    by (simp add: base_options_def)
  have "?d = map (grow (Fin (1 / 4))) [0..<length ?d]"
    using relaunch_delays_run [of base_options "crash_loop 540" base_argv 0 "Some 100"]
    unfolding base_start_def [symmetric] g .
  then have d: "?d = map (grow (Fin (1 / 4))) [0..<540]"
    unfolding l .
  have "?d ! 538 = grow (Fin (1 / 4)) 538" "?d ! 539 = grow (Fin (1 / 4)) 539"
    by (subst d, simp)+
  then show ?thesis
    using l grow_quarter_zero [of 538] grow_quarter_zero [of 539] by simp
qed

end
